theory Spec2Isabelle
  imports Main "HOL-Library.Multiset"
begin

section \<open>The War card game simulator (main.go)\<close>

text \<open>
  A shallow embedding of the single-game engine of \<^verbatim>\<open>main.go\<close>: \<^verbatim>\<open>createDeck\<close>,
  \<^verbatim>\<open>shuffleDeck\<close>, \<^verbatim>\<open>drawCard\<close>, \<^verbatim>\<open>drawWarCards\<close>, \<^verbatim>\<open>handleWar\<close>, \<^verbatim>\<open>timeoutResult\<close>,
  \<^verbatim>\<open>determineWarWinner\<close>, \<^verbatim>\<open>handleDeepWar\<close>, \<^verbatim>\<open>playGame\<close> and \<^verbatim>\<open>runSimulations\<close>.

  Go's pointer arguments (\<^verbatim>\<open>*Player\<close>, \<^verbatim>\<open>*GameStats\<close>, \<^verbatim>\<open>*int\<close>) and the process-wide
  random generator become one explicit state that every function takes and returns.
  Slices are lists: a draw pile is only ever re-sliced (\<^verbatim>\<open>[1:]\<close>) or replaced, and a
  winnings pile is only appended to or replaced by a fresh \<^verbatim>\<open>[]Card{}\<close>, so no two
  piles ever share a backing array that one of them writes.
\<close>

subsection \<open>Machine integers\<close>

text \<open>
  Go's \<^verbatim>\<open>int\<close> is taken as 64 bits, two's complement. The elapsed time is a sum of
  the caller's \<^verbatim>\<open>handTime\<close> and \<^verbatim>\<open>shuffleTime\<close>, which are arbitrary, so every addition to
  it wraps. The counters of \<^verbatim>\<open>GameStats\<close> grow by one per step of a game of at most
  100000 tricks and are kept as mathematical integers.
\<close>

definition wrap64 :: "int \<Rightarrow> int" where
  "wrap64 x = (x + 2 ^ 63) mod 2 ^ 64 - 2 ^ 63"

subsection \<open>Data\<close>

datatype Card = Card (Rank: int)

record Player =
  DrawPile :: "Card list"
  WinningsPile :: "Card list"

record GameStats =
  GameNumber :: int
  Tricks :: int
  Wars :: int
  DeepWars :: int
  TotalWarDepth :: int
  ShufflesA :: int
  ShufflesB :: int
  GameDuration :: int
  Finished :: bool
  PlayerATricks :: int
  PlayerBTricks :: int
  Winner :: int

text \<open>\<^verbatim>\<open>WarResult{Winner, PlayerATricks, PlayerBTricks}\<close>; the selectors carry a prefix
  because \<^verbatim>\<open>GameStats\<close> has fields of the same names.\<close>

datatype WarResult = WarResult (resWinner: int) (resPlayerATricks: int) (resPlayerBTricks: int)

text \<open>The zero value \<^verbatim>\<open>GameStats{}\<close>.\<close>

definition emptyStats :: GameStats where
  "emptyStats = \<lparr>GameNumber = 0, Tricks = 0, Wars = 0, DeepWars = 0, TotalWarDepth = 0,
     ShufflesA = 0, ShufflesB = 0, GameDuration = 0, Finished = False,
     PlayerATricks = 0, PlayerBTricks = 0, Winner = 0\<rparr>"

subsection \<open>The random source\<close>

text \<open>
  \<^verbatim>\<open>math/rand\<close> is not part of the repository. The generator is a parameter: an
  arbitrary infinite sequence of raw values and the position of the next one.
  \<^verbatim>\<open>Intn n\<close> reduces the next raw value into \<^verbatim>\<open>[0, n)\<close>, so every sequence of
  outcomes of the library is the image of some source.
\<close>

record Rand =
  src :: "nat \<Rightarrow> nat"
  pos :: nat

definition Intn :: "nat \<Rightarrow> Rand \<Rightarrow> nat \<times> Rand" where
  "Intn n r = (src r (pos r) mod n, r\<lparr>pos := pos r + 1\<rparr>)"

text \<open>The callback of \<^verbatim>\<open>shuffleDeck\<close>: \<^verbatim>\<open>deck[i], deck[j] = deck[j], deck[i]\<close>.\<close>

definition swap :: "nat \<Rightarrow> nat \<Rightarrow> Card list \<Rightarrow> Card list" where
  "swap i j deck = deck[i := deck ! j, j := deck ! i]"

text \<open>\<^verbatim>\<open>rand.Shuffle(n, swap)\<close>: \<^verbatim>\<open>for i := n-1; i > 0; i-- { j := Intn(i+1); swap(i, j) }\<close>.\<close>

fun shuffleFrom :: "nat \<Rightarrow> Card list \<Rightarrow> Rand \<Rightarrow> Card list \<times> Rand" where
  "shuffleFrom 0 deck r = (deck, r)"
| "shuffleFrom (Suc i) deck r =
     (case Intn (Suc i + 1) r of (j, r') \<Rightarrow> shuffleFrom i (swap (Suc i) j deck) r')"

definition shuffleDeck :: "Card list \<Rightarrow> Rand \<Rightarrow> Card list \<times> Rand" where
  "shuffleDeck deck r = shuffleFrom (length deck - 1) deck r"

subsection \<open>The deck\<close>

definition createDeck :: "bool \<Rightarrow> Card list" where
  "createDeck includeJokers =
     concat (map (\<lambda>rank. replicate 4 (Card rank)) [2 .. 14])
     @ (if includeJokers then [Card 15, Card 15] else [])"

subsection \<open>Drawing\<close>

text \<open>\<^verbatim>\<open>len(player.DrawPile) + len(player.WinningsPile)\<close>, the count the source uses
  everywhere for a player's cards.\<close>

definition cards :: "Player \<Rightarrow> nat" where
  "cards p = length (DrawPile p) + length (WinningsPile p)"

text \<open>
  \<^verbatim>\<open>drawCard\<close> returns the card, the reshuffle signal, and the player and generator
  as it leaves them. The sentinel \<^verbatim>\<open>Card{}\<close> is \<open>Card 0\<close>. In the reshuffle branch
  the source returns \<^verbatim>\<open>player.DrawPile[0]\<close> and leaves the draw pile as shuffled; the
  pile is not empty there, so the index is in range.
\<close>

definition drawCard :: "Player \<Rightarrow> Rand \<Rightarrow> (Card \<times> int) \<times> Player \<times> Rand" where
  "drawCard player r =
     (if length (DrawPile player) = 0 then
        if length (WinningsPile player) = 0 then ((Card 0, 0), player, r)
        else
          (case shuffleDeck (WinningsPile player) r of (pile, r') \<Rightarrow>
             ((hd pile, 1), player\<lparr>DrawPile := pile, WinningsPile := []\<rparr>, r'))
      else
        ((hd (DrawPile player), 0), player\<lparr>DrawPile := tl (DrawPile player)\<rparr>, r))"

text \<open>
  The loop of \<^verbatim>\<open>drawWarCards\<close>, with the number of iterations left as first argument
  and the cards drawn so far as accumulator. The tuple is what the loop mutates:
  the player, \<^verbatim>\<open>*shuffles\<close>, \<^verbatim>\<open>*totalTime\<close> and the generator.
\<close>

fun drawWarLoop ::
  "nat \<Rightarrow> int \<Rightarrow> int \<Rightarrow> Card list \<Rightarrow> Player \<times> int \<times> int \<times> Rand
     \<Rightarrow> Card list \<times> Player \<times> int \<times> int \<times> Rand" where
  "drawWarLoop 0 handTime shuffleTime cs (player, shufflesCount, totalTime, r) =
     (cs, player, shufflesCount, totalTime, r)"
| "drawWarLoop (Suc n) handTime shuffleTime cs (player, shufflesCount, totalTime, r) =
     (case drawCard player r of ((drawn, shuffled), player', r') \<Rightarrow>
        let shufflesCount' = (if shuffled > 0 then shufflesCount + 1 else shufflesCount);
            t1 = (if shuffled > 0 then wrap64 (totalTime + shuffleTime) else totalTime);
            t2 = wrap64 (t1 + handTime)
        in if drawn = Card 0 then (cs, player', shufflesCount', t2, r')
           else drawWarLoop n handTime shuffleTime (cs @ [drawn]) (player', shufflesCount', t2, r'))"

definition drawWarCards ::
  "Player \<Rightarrow> int \<Rightarrow> int \<Rightarrow> int \<Rightarrow> int \<Rightarrow> Rand \<Rightarrow> Card list \<times> Player \<times> int \<times> int \<times> Rand" where
  "drawWarCards player shufflesCount totalTime handTime shuffleTime r =
     drawWarLoop 4 handTime shuffleTime [] (player, shufflesCount, totalTime, r)"

subsection \<open>The game state\<close>

text \<open>What \<^verbatim>\<open>playGame\<close> holds in its locals and hands to \<^verbatim>\<open>handleWar\<close> by pointer.\<close>

record Game =
  playerA :: Player
  playerB :: Player
  stats :: GameStats
  totalTime :: int
  rand :: Rand

definition timeoutResult :: "Player \<Rightarrow> Player \<Rightarrow> WarResult" where
  "timeoutResult pA pB =
     (if cards pA > cards pB then WarResult 1 1 0 else WarResult 2 0 1)"

definition determineWarWinner :: "Card list \<Rightarrow> Card list \<Rightarrow> WarResult" where
  "determineWarWinner cardsA cardsB =
     (if length cardsA = 0 then WarResult 2 0 1 else WarResult 1 1 0)"

text \<open>Lines 180--181 of \<^verbatim>\<open>handleWar\<close>: both players draw their war cards, A first.\<close>

definition warDraw :: "int \<Rightarrow> int \<Rightarrow> Game \<Rightarrow> Card list \<times> Card list \<times> Game" where
  "warDraw handTime shuffleTime g =
     (case drawWarCards (playerA g) (ShufflesA (stats g)) (totalTime g) handTime shuffleTime (rand g)
      of (cardsA, pA, shA, tA, rA) \<Rightarrow>
        (case drawWarCards (playerB g) (ShufflesB (stats g)) tA handTime shuffleTime rA
         of (cardsB, pB, shB, tB, rB) \<Rightarrow>
           (cardsA, cardsB,
            g\<lparr>playerA := pA, playerB := pB,
              stats := (stats g)\<lparr>ShufflesA := shA, ShufflesB := shB\<rparr>,
              totalTime := tB, rand := rB\<rparr>)))"

text \<open>Lines 172--174 of \<^verbatim>\<open>handleWar\<close>: the counters and the charge for the comparison.\<close>

definition warEnter :: "int \<Rightarrow> int \<Rightarrow> Game \<Rightarrow> Game" where
  "warEnter handTime depth g =
     g\<lparr>stats := (stats g)\<lparr>Wars := Wars (stats g) + 1,
                            TotalWarDepth := TotalWarDepth (stats g) + depth\<rparr>,
       totalTime := wrap64 (totalTime g + handTime)\<rparr>"

text \<open>
  \<^verbatim>\<open>handleWar\<close> and \<^verbatim>\<open>handleDeepWar\<close> call each other. Both return the result and the
  state as they leave it. \<^verbatim>\<open>warPile\<close> is a slice passed by value: the appends below
  build new slice headers that live in the callee only, and the function returns
  none of them.
\<close>

function handleWar :: "int \<Rightarrow> int \<Rightarrow> int \<Rightarrow> Game \<Rightarrow> Card list \<Rightarrow> int \<Rightarrow> WarResult \<times> Game"
  and handleDeepWar :: "int \<Rightarrow> int \<Rightarrow> int \<Rightarrow> Game \<Rightarrow> Card list \<Rightarrow> int \<Rightarrow> WarResult \<times> Game"
where
  "handleWar handTime shuffleTime maxGameTime g warPile depth =
     (if totalTime (warEnter handTime depth g) \<ge> maxGameTime then
        (timeoutResult (playerA (warEnter handTime depth g)) (playerB (warEnter handTime depth g)),
         warEnter handTime depth g)
      else
        (case warDraw handTime shuffleTime (warEnter handTime depth g) of
           (cardsA, cardsB, g2) \<Rightarrow>
             if length cardsA = 0 \<or> length cardsB = 0 then (determineWarWinner cardsA cardsB, g2)
             else if Rank (last cardsA) = Rank (last cardsB) then
               handleDeepWar handTime shuffleTime maxGameTime g2
                 (warPile @ butlast cardsA @ butlast cardsB @ [last cardsA, last cardsB]) depth
             else if Rank (last cardsA) > Rank (last cardsB) then (WarResult 1 1 0, g2)
             else (WarResult 2 0 1, g2)))"
| "handleDeepWar handTime shuffleTime maxGameTime g warPile depth =
     (if cards (playerA g) = 0 then
        (WarResult 2 0 1, g\<lparr>stats := (stats g)\<lparr>DeepWars := DeepWars (stats g) + 1\<rparr>\<rparr>)
      else if cards (playerB g) = 0 then
        (WarResult 1 1 0, g\<lparr>stats := (stats g)\<lparr>DeepWars := DeepWars (stats g) + 1\<rparr>\<rparr>)
      else
        handleWar handTime shuffleTime maxGameTime
          (g\<lparr>stats := (stats g)\<lparr>DeepWars := DeepWars (stats g) + 1\<rparr>\<rparr>) warPile (depth + 1))"
  by pat_completeness auto

subsection \<open>Card counts while drawing\<close>

lemma length_swap [simp]: "length (swap i j deck) = length deck"
  by (simp add: swap_def)

lemma length_shuffleFrom: "shuffleFrom i deck r = (deck', r') \<Longrightarrow> length deck' = length deck"
  by (induction i arbitrary: deck r) (auto split: prod.splits)

lemma length_shuffleDeck: "shuffleDeck deck r = (deck', r') \<Longrightarrow> length deck' = length deck"
  unfolding shuffleDeck_def by (rule length_shuffleFrom)

lemma drawCard_cards_le:
  "drawCard p r = (cs, p', r') \<Longrightarrow> cards p' \<le> cards p"
  by (auto simp: drawCard_def cards_def split: if_splits prod.splits dest: length_shuffleDeck)

lemma drawCard_pop:
  "DrawPile p \<noteq> [] \<Longrightarrow> drawCard p r = (cs, p', r') \<Longrightarrow> cards p' < cards p"
  by (auto simp: drawCard_def cards_def split: if_splits)

lemma drawCard_reshuffle_pile:
  "DrawPile p = [] \<Longrightarrow> WinningsPile p \<noteq> [] \<Longrightarrow> drawCard p r = (cs, p', r') \<Longrightarrow>
     DrawPile p' \<noteq> [] \<and> cards p' = cards p"
  by (auto simp: drawCard_def cards_def split: if_splits prod.splits dest: length_shuffleDeck)

lemma drawCard_none:
  "DrawPile p = [] \<Longrightarrow> WinningsPile p = [] \<Longrightarrow> drawCard p r = ((Card 0, 0), p, r)"
  by (simp add: drawCard_def)

lemma drawWarLoop_cards_le:
  "drawWarLoop n hT sT cs (p, sh, t, r) = (cs', p', sh', t', r') \<Longrightarrow> cards p' \<le> cards p"
proof (induction n arbitrary: cs p sh t r)
  case 0
  then show ?case by simp
next
  case (Suc n)
  obtain c s p1 r1 where d: "drawCard p r = ((c, s), p1, r1)"
    by (metis prod.exhaust)
  have le1: "cards p1 \<le> cards p"
    using d by (rule drawCard_cards_le)
  show ?case
  proof (cases "c = Card 0")
    case True
    with Suc.prems d le1 show ?thesis by (simp add: Let_def)
  next
    case False
    with Suc.prems d have
      "\<exists>sh1 t1. drawWarLoop n hT sT (cs @ [c]) (p1, sh1, t1, r1) = (cs', p', sh', t', r')"
      by (auto simp: Let_def)
    then show ?thesis using Suc.IH le1 by (meson le_trans)
  qed
qed

lemma drawWarLoop_pop:
  assumes "DrawPile p \<noteq> []"
    and "drawWarLoop (Suc n) hT sT cs (p, sh, t, r) = (cs', p', sh', t', r')"
  shows "cards p' < cards p"
proof -
  obtain c s p1 r1 where d: "drawCard p r = ((c, s), p1, r1)"
    by (metis prod.exhaust)
  have lt1: "cards p1 < cards p"
    using assms(1) d by (rule drawCard_pop)
  show ?thesis
  proof (cases "c = Card 0")
    case True
    with assms(2) d lt1 show ?thesis by (simp add: Let_def)
  next
    case False
    with assms(2) d have
      "\<exists>sh1 t1. drawWarLoop n hT sT (cs @ [c]) (p1, sh1, t1, r1) = (cs', p', sh', t', r')"
      by (auto simp: Let_def)
    then show ?thesis using drawWarLoop_cards_le lt1 by (meson le_less_trans)
  qed
qed

text \<open>Two iterations suffice to take a card off a player from whom any card was
  obtained: a reshuffle returns the front card without removing it, and the next
  draw removes it.\<close>

lemma drawWarLoop_obtained_decreases:
  assumes "drawWarLoop (Suc (Suc n)) hT sT [] (p, sh, t, r) = (cs', p', sh', t', r')"
    and "cs' \<noteq> []"
  shows "cards p' < cards p"
proof (cases "DrawPile p = []")
  case False
  then show ?thesis using assms(1) by (rule drawWarLoop_pop)
next
  case True
  show ?thesis
  proof (cases "WinningsPile p = []")
    case True
    with \<open>DrawPile p = []\<close> assms show ?thesis
      by (simp add: drawCard_none)
  next
    case False
    obtain c s p1 r1 where d: "drawCard p r = ((c, s), p1, r1)"
      by (metis prod.exhaust)
    have p1: "DrawPile p1 \<noteq> []" "cards p1 = cards p"
      using drawCard_reshuffle_pile [OF True False d] by simp_all
    have "c \<noteq> Card 0"
      using assms d by (auto simp: Let_def)
    with assms(1) d have
      "\<exists>sh1 t1. drawWarLoop (Suc n) hT sT [c] (p1, sh1, t1, r1) = (cs', p', sh', t', r')"
      by (auto simp: Let_def)
    then show ?thesis using drawWarLoop_pop [OF p1(1)] p1(2) by metis
  qed
qed

lemma drawWarCards_obtained_decreases:
  "drawWarCards p sh t hT sT r = (cs, p', sh', t', r') \<Longrightarrow> cs \<noteq> [] \<Longrightarrow> cards p' < cards p"
  using drawWarLoop_obtained_decreases [of 2 hT sT p sh t r cs p' sh' t' r']
  by (simp add: drawWarCards_def numeral_Bit0 del: drawWarLoop.simps)

lemma drawWarCards_cards_le:
  "drawWarCards p sh t hT sT r = (cs, p', sh', t', r') \<Longrightarrow> cards p' \<le> cards p"
  unfolding drawWarCards_def by (rule drawWarLoop_cards_le)

lemma warDraw_decreases:
  assumes "warDraw hT sT g = (cardsA, cardsB, g2)" and "cardsA \<noteq> []"
  shows "cards (playerA g2) + cards (playerB g2) < cards (playerA g) + cards (playerB g)"
proof -
  obtain pA shA tA rA where a:
    "drawWarCards (playerA g) (ShufflesA (stats g)) (totalTime g) hT sT (rand g)
       = (cardsA, pA, shA, tA, rA)"
    using assms(1) by (auto simp: warDraw_def split: prod.splits)
  obtain pB shB tB rB where b:
    "drawWarCards (playerB g) (ShufflesB (stats g)) tA hT sT rA = (cardsB, pB, shB, tB, rB)"
    using assms(1) a by (auto simp: warDraw_def split: prod.splits)
  have g2: "playerA g2 = pA" "playerB g2 = pB"
    using assms(1) a b by (auto simp: warDraw_def)
  have "cards pA < cards (playerA g)"
    using a assms(2) by (rule drawWarCards_obtained_decreases)
  moreover have "cards pB \<le> cards (playerB g)"
    using b by (rule drawWarCards_cards_le)
  ultimately show ?thesis using g2 by simp
qed

text \<open>
  The recursion of \<^verbatim>\<open>handleWar\<close> ends: a nested war is entered only after a level at
  which both players obtained a card, and such a level leaves the two players with
  fewer cards than it found.
\<close>

termination handleWar
proof (relation "measure (\<lambda>x. case x of
    Inl (hT, sT, mT, g, wp, d) \<Rightarrow> 2 * (cards (playerA g) + cards (playerB g)) + 1
  | Inr (hT, sT, mT, g, wp, d) \<Rightarrow> 2 * (cards (playerA g) + cards (playerB g)) + 2)",
  goal_cases)
  case 1
  show ?case by simp
next
  case (2 handTime shuffleTime maxGameTime g warPile depth cardsA y cardsB g2)
  have "warDraw handTime shuffleTime (warEnter handTime depth g) = (cardsA, cardsB, g2)"
    using 2 by simp
  moreover have "cardsA \<noteq> []"
    using 2 by simp
  ultimately have
    "cards (playerA g2) + cards (playerB g2)
       < cards (playerA (warEnter handTime depth g)) + cards (playerB (warEnter handTime depth g))"
    by (rule warDraw_decreases)
  then show ?case by (simp add: warEnter_def)
next
  case 3
  then show ?case by simp
qed

declare handleWar.simps [simp del] handleDeepWar.simps [simp del]

subsection \<open>What a war leaves alone\<close>

lemma warEnter_frame [simp]:
  "Tricks (stats (warEnter hT d g)) = Tricks (stats g)"
  "PlayerATricks (stats (warEnter hT d g)) = PlayerATricks (stats g)"
  "PlayerBTricks (stats (warEnter hT d g)) = PlayerBTricks (stats g)"
  "Winner (stats (warEnter hT d g)) = Winner (stats g)"
  "playerA (warEnter hT d g) = playerA g"
  "playerB (warEnter hT d g) = playerB g"
  by (simp_all add: warEnter_def)

lemma warDraw_frame:
  assumes "warDraw hT sT g = (cardsA, cardsB, g2)"
  shows "Tricks (stats g2) = Tricks (stats g)"
    and "PlayerATricks (stats g2) = PlayerATricks (stats g)"
    and "PlayerBTricks (stats g2) = PlayerBTricks (stats g)"
    and "Winner (stats g2) = Winner (stats g)"
    and "Wars (stats g2) = Wars (stats g)"
    and "DeepWars (stats g2) = DeepWars (stats g)"
    and "TotalWarDepth (stats g2) = TotalWarDepth (stats g)"
  using assms by (auto simp: warDraw_def split: prod.splits)

lemma handleWar_frame:
  "Tricks (stats (snd (handleWar hT sT mT g wp d))) = Tricks (stats g)
   \<and> PlayerATricks (stats (snd (handleWar hT sT mT g wp d))) = PlayerATricks (stats g)
   \<and> PlayerBTricks (stats (snd (handleWar hT sT mT g wp d))) = PlayerBTricks (stats g)
   \<and> Winner (stats (snd (handleWar hT sT mT g wp d))) = Winner (stats g)"
  and "Tricks (stats (snd (handleDeepWar hT sT mT g wp d))) = Tricks (stats g)
   \<and> PlayerATricks (stats (snd (handleDeepWar hT sT mT g wp d))) = PlayerATricks (stats g)
   \<and> PlayerBTricks (stats (snd (handleDeepWar hT sT mT g wp d))) = PlayerBTricks (stats g)
   \<and> Winner (stats (snd (handleDeepWar hT sT mT g wp d))) = Winner (stats g)"
proof (induction hT sT mT g wp d and hT sT mT g wp d rule: handleWar_handleDeepWar.induct)
  case (1 hT sT mT g wp d)
  obtain cardsA cardsB g2 where w: "warDraw hT sT (warEnter hT d g) = (cardsA, cardsB, g2)"
    by (metis prod.exhaust)
  note fr = warDraw_frame [OF w]
  show ?case
  proof (cases "\<not> mT \<le> totalTime (warEnter hT d g) \<and> \<not> (length cardsA = 0 \<or> length cardsB = 0)
                \<and> Rank (last cardsA) = Rank (last cardsB)")
    case True
    then have "handleWar hT sT mT g wp d
        = handleDeepWar hT sT mT g2 (wp @ butlast cardsA @ butlast cardsB @ [last cardsA, last cardsB]) d"
      using w by (simp add: handleWar.simps)
    moreover note "1.IH" [of cardsA "(cardsB, g2)" cardsB g2]
    ultimately show ?thesis using True w fr by simp
  next
    case False
    then show ?thesis using w fr
      by (auto simp: handleWar.simps)
  qed
next
  case (2 hT sT mT g wp d)
  show ?case
  proof (cases "cards (playerA g) \<noteq> 0 \<and> cards (playerB g) \<noteq> 0")
    case True
    then show ?thesis using "2.IH" by (simp add: handleDeepWar.simps)
  next
    case False
    then show ?thesis by (auto simp: handleDeepWar.simps)
  qed
qed

subsection \<open>One game\<close>

text \<open>Lines 98--105 of \<^verbatim>\<open>playGame\<close>: the deal.\<close>

definition initGame :: "bool \<Rightarrow> Rand \<Rightarrow> Game" where
  "initGame includeJokers r =
     (case shuffleDeck (createDeck includeJokers) r of (deck, r') \<Rightarrow>
        \<lparr>playerA = \<lparr>DrawPile = take (length deck div 2) deck, WinningsPile = []\<rparr>,
         playerB = \<lparr>DrawPile = drop (length deck div 2) deck, WinningsPile = []\<rparr>,
         stats = emptyStats, totalTime = 0, rand = r'\<rparr>)"

text \<open>The condition of the main loop (lines 108--110); \<^verbatim>\<open>maxTricks\<close> is 100000.\<close>

definition loopCond :: "int \<Rightarrow> Game \<Rightarrow> bool" where
  "loopCond maxGameTime g \<longleftrightarrow>
     cards (playerA g) > 0 \<and> cards (playerB g) > 0
     \<and> Tricks (stats g) < 100000 \<and> totalTime g < maxGameTime"

text \<open>\<^verbatim>\<open>append(player.WinningsPile, ...)\<close>.\<close>

definition win :: "Card list \<Rightarrow> Player \<Rightarrow> Player" where
  "win pile p = p\<lparr>WinningsPile := WinningsPile p @ pile\<rparr>"

text \<open>Lines 112--119: the counter, the charge, one draw each, the reshuffles' cost.\<close>

definition trickDraw :: "int \<Rightarrow> int \<Rightarrow> Game \<Rightarrow> Card \<times> Card \<times> Game" where
  "trickDraw handTime shuffleTime g =
     (case drawCard (playerA g) (rand g) of ((cardA, shuffledA), pA, rA) \<Rightarrow>
      case drawCard (playerB g) rA of ((cardB, shuffledB), pB, rB) \<Rightarrow>
        (cardA, cardB,
         g\<lparr>playerA := pA, playerB := pB,
           stats := (stats g)\<lparr>Tricks := Tricks (stats g) + 1,
                                ShufflesA := ShufflesA (stats g) + shuffledA,
                                ShufflesB := ShufflesB (stats g) + shuffledB\<rparr>,
           totalTime := wrap64 (wrap64 (totalTime g + handTime)
                                + wrap64 ((shuffledA + shuffledB) * shuffleTime)),
           rand := rB\<rparr>))"

text \<open>
  Lines 124--130: the result of the war is booked and the winner is given the
  caller's \<^verbatim>\<open>warPile\<close>. That slice is the one built at line 122; \<^verbatim>\<open>handleWar\<close> got
  a copy of its header, so here it still holds the two cards of the trick.
\<close>

definition awardWar :: "WarResult \<Rightarrow> Card list \<Rightarrow> Game \<Rightarrow> Game" where
  "awardWar result warPile g =
     (let g' = g\<lparr>stats := (stats g)
                 \<lparr>PlayerATricks := PlayerATricks (stats g) + resPlayerATricks result,
                  PlayerBTricks := PlayerBTricks (stats g) + resPlayerBTricks result\<rparr>\<rparr>
      in if resWinner result = 1 then g'\<lparr>playerA := win warPile (playerA g')\<rparr>
         else if resWinner result = 2 then g'\<lparr>playerB := win warPile (playerB g')\<rparr>
         else g')"

text \<open>The body of the main loop (lines 112--137).\<close>

definition playTrick :: "int \<Rightarrow> int \<Rightarrow> int \<Rightarrow> Game \<Rightarrow> Game" where
  "playTrick handTime shuffleTime maxGameTime g =
     (case trickDraw handTime shuffleTime g of (cardA, cardB, g1) \<Rightarrow>
        if Rank cardA = Rank cardB then
          (case handleWar handTime shuffleTime maxGameTime g1 [cardA, cardB] 1 of
             (result, g2) \<Rightarrow> awardWar result [cardA, cardB] g2)
        else if Rank cardA > Rank cardB then
          g1\<lparr>playerA := win [cardA, cardB] (playerA g1),
             stats := (stats g1)\<lparr>PlayerATricks := PlayerATricks (stats g1) + 1\<rparr>\<rparr>
        else
          g1\<lparr>playerB := win [cardA, cardB] (playerB g1),
             stats := (stats g1)\<lparr>PlayerBTricks := PlayerBTricks (stats g1) + 1\<rparr>\<rparr>)"

lemma trickDraw_stats:
  assumes "trickDraw hT sT g = (cardA, cardB, g1)"
  shows "Tricks (stats g1) = Tricks (stats g) + 1"
    and "PlayerATricks (stats g1) = PlayerATricks (stats g)"
    and "PlayerBTricks (stats g1) = PlayerBTricks (stats g)"
    and "Winner (stats g1) = Winner (stats g)"
  using assms by (auto simp: trickDraw_def split: prod.splits)

lemma awardWar_stats [simp]:
  "Tricks (stats (awardWar res pile g)) = Tricks (stats g)"
  "Winner (stats (awardWar res pile g)) = Winner (stats g)"
  "PlayerATricks (stats (awardWar res pile g)) = PlayerATricks (stats g) + resPlayerATricks res"
  "PlayerBTricks (stats (awardWar res pile g)) = PlayerBTricks (stats g) + resPlayerBTricks res"
  by (simp_all add: awardWar_def Let_def)

text \<open>The two shapes of a trick: a war, or a plain win of one side.\<close>

lemma playTrick_cases:
  obtains
    (war) cardA cardB g1 result g2 where
      "trickDraw hT sT g = (cardA, cardB, g1)" "Rank cardA = Rank cardB"
      "handleWar hT sT mT g1 [cardA, cardB] 1 = (result, g2)"
      "playTrick hT sT mT g = awardWar result [cardA, cardB] g2"
  | (winA) cardA cardB g1 where
      "trickDraw hT sT g = (cardA, cardB, g1)" "Rank cardA > Rank cardB"
      "playTrick hT sT mT g = g1\<lparr>playerA := win [cardA, cardB] (playerA g1),
          stats := (stats g1)\<lparr>PlayerATricks := PlayerATricks (stats g1) + 1\<rparr>\<rparr>"
  | (winB) cardA cardB g1 where
      "trickDraw hT sT g = (cardA, cardB, g1)" "Rank cardA < Rank cardB"
      "playTrick hT sT mT g = g1\<lparr>playerB := win [cardA, cardB] (playerB g1),
          stats := (stats g1)\<lparr>PlayerBTricks := PlayerBTricks (stats g1) + 1\<rparr>\<rparr>"
proof -
  obtain cardA cardB g1 where t: "trickDraw hT sT g = (cardA, cardB, g1)"
    by (metis prod.exhaust)
  obtain result g2 where w: "handleWar hT sT mT g1 [cardA, cardB] 1 = (result, g2)"
    by (metis prod.exhaust)
  consider "Rank cardA = Rank cardB" | "Rank cardA > Rank cardB" | "Rank cardA < Rank cardB"
    by linarith
  then show thesis
  proof cases
    case 1
    then show ?thesis using t w war by (simp add: playTrick_def)
  next
    case 2
    then show ?thesis using t winA by (simp add: playTrick_def)
  next
    case 3
    then show ?thesis using t winB by (simp add: playTrick_def)
  qed
qed

lemma handleWar_Tricks:
  "handleWar hT sT mT g wp d = (result, g2) \<Longrightarrow> Tricks (stats g2) = Tricks (stats g)"
  using handleWar_frame(1) [of hT sT mT g wp d] by simp

lemma playTrick_Tricks: "Tricks (stats (playTrick hT sT mT g)) = Tricks (stats g) + 1"
proof (cases rule: playTrick_cases [of hT sT g mT])
  case (war cardA cardB g1 result g2)
  then show ?thesis
    using handleWar_Tricks [OF war(3)] trickDraw_stats(1) [OF war(1)] by simp
next
  case (winA cardA cardB g1)
  then show ?thesis using trickDraw_stats(1) [OF winA(1)] by simp
next
  case (winB cardA cardB g1)
  then show ?thesis using trickDraw_stats(1) [OF winB(1)] by simp
qed

text \<open>The main loop: the state in which its condition first fails.\<close>

function playLoop :: "int \<Rightarrow> int \<Rightarrow> int \<Rightarrow> Game \<Rightarrow> Game" where
  "playLoop handTime shuffleTime maxGameTime g =
     (if loopCond maxGameTime g
      then playLoop handTime shuffleTime maxGameTime (playTrick handTime shuffleTime maxGameTime g)
      else g)"
  by pat_completeness auto

termination playLoop
  by (relation "measure (\<lambda>(hT, sT, mT, g). nat (100000 - Tricks (stats g)))")
     (simp_all add: loopCond_def playTrick_Tricks)

declare playLoop.simps [simp del]

text \<open>Lines 140--151 of \<^verbatim>\<open>playGame\<close>. \<^verbatim>\<open>GameDuration\<close> is in nanoseconds:
  \<^verbatim>\<open>time.Duration(totalTime) * time.Millisecond\<close>, an \<^verbatim>\<open>int64\<close> product.\<close>

definition finishStats :: "Game \<Rightarrow> GameStats" where
  "finishStats g =
     (let finished = (cards (playerA g) = 0 \<or> cards (playerB g) = 0);
          s1 = (stats g)\<lparr>Finished := finished\<rparr>;
          s2 = (if finished
                then (if cards (playerA g) = 0 then s1\<lparr>Winner := 2\<rparr> else s1\<lparr>Winner := 1\<rparr>)
                else s1)
      in s2\<lparr>GameDuration := wrap64 (totalTime g * 1000000)\<rparr>)"

definition playGame :: "int \<Rightarrow> int \<Rightarrow> bool \<Rightarrow> int \<Rightarrow> Rand \<Rightarrow> GameStats \<times> Rand" where
  "playGame handTime shuffleTime includeJokers maxGameTime r =
     (let g = playLoop handTime shuffleTime maxGameTime (initGame includeJokers r)
      in (finishStats g, rand g))"

subsection \<open>Results of a war\<close>

lemma handleWar_result:
  "fst (handleWar hT sT mT g wp d) = WarResult 1 1 0 \<or> fst (handleWar hT sT mT g wp d) = WarResult 2 0 1"
  and "fst (handleDeepWar hT sT mT g wp d) = WarResult 1 1 0
       \<or> fst (handleDeepWar hT sT mT g wp d) = WarResult 2 0 1"
proof (induction hT sT mT g wp d and hT sT mT g wp d rule: handleWar_handleDeepWar.induct)
  case (1 hT sT mT g wp d)
  obtain cardsA cardsB g2 where w: "warDraw hT sT (warEnter hT d g) = (cardsA, cardsB, g2)"
    by (metis prod.exhaust)
  show ?case
  proof (cases "\<not> mT \<le> totalTime (warEnter hT d g) \<and> \<not> (length cardsA = 0 \<or> length cardsB = 0)
                \<and> Rank (last cardsA) = Rank (last cardsB)")
    case True
    then have "handleWar hT sT mT g wp d
        = handleDeepWar hT sT mT g2 (wp @ butlast cardsA @ butlast cardsB @ [last cardsA, last cardsB]) d"
      using w by (simp add: handleWar.simps)
    moreover note "1.IH" [of cardsA "(cardsB, g2)" cardsB g2]
    ultimately show ?thesis using True w by simp
  next
    case False
    then show ?thesis using w
      by (auto simp: handleWar.simps timeoutResult_def determineWarWinner_def)
  qed
next
  case (2 hT sT mT g wp d)
  show ?case
  proof (cases "cards (playerA g) \<noteq> 0 \<and> cards (playerB g) \<noteq> 0")
    case True
    then show ?thesis using "2.IH" by (simp add: handleDeepWar.simps)
  next
    case False
    then show ?thesis by (auto simp: handleDeepWar.simps)
  qed
qed

subsection \<open>Invariants of the main loop\<close>

lemma playLoop_invariant:
  assumes "I g" and "\<And>g. I g \<Longrightarrow> loopCond mT g \<Longrightarrow> I (playTrick hT sT mT g)"
  shows "I (playLoop hT sT mT g)"
  using assms
proof (induction hT sT mT g rule: playLoop.induct)
  case (1 hT sT mT g)
  show ?case
  proof (cases "loopCond mT g")
    case True
    then have "I (playTrick hT sT mT g)" using "1.prems" by simp
    then have "I (playLoop hT sT mT (playTrick hT sT mT g))"
      using True "1.IH" "1.prems"(2) by simp
    then show ?thesis using True by (simp add: playLoop.simps [of hT sT mT g])
  next
    case False
    then show ?thesis using "1.prems"(1) by (simp add: playLoop.simps [of hT sT mT g])
  qed
qed

lemma playLoop_exit: "\<not> loopCond mT (playLoop hT sT mT g)"
proof (induction hT sT mT g rule: playLoop.induct)
  case (1 hT sT mT g)
  then show ?case by (cases "loopCond mT g") (simp_all add: playLoop.simps [of hT sT mT g])
qed

lemma playTrick_trick_wins:
  assumes "PlayerATricks (stats g) + PlayerBTricks (stats g) = Tricks (stats g)"
  shows "PlayerATricks (stats (playTrick hT sT mT g)) + PlayerBTricks (stats (playTrick hT sT mT g))
           = Tricks (stats (playTrick hT sT mT g))"
proof (cases rule: playTrick_cases [of hT sT g mT])
  case (war cardA cardB g1 result g2)
  have fr: "PlayerATricks (stats g2) = PlayerATricks (stats g1)"
    "PlayerBTricks (stats g2) = PlayerBTricks (stats g1)" "Tricks (stats g2) = Tricks (stats g1)"
    using handleWar_frame(1) [of hT sT mT g1 "[cardA, cardB]" 1] war(3) by simp_all
  have "result = WarResult 1 1 0 \<or> result = WarResult 2 0 1"
    using handleWar_result(1) [of hT sT mT g1 "[cardA, cardB]" 1] war(3) by simp
  then show ?thesis
    using war(4) fr trickDraw_stats [OF war(1)] assms by auto
next
  case (winA cardA cardB g1)
  then show ?thesis using trickDraw_stats [OF winA(1)] assms by simp
next
  case (winB cardA cardB g1)
  then show ?thesis using trickDraw_stats [OF winB(1)] assms by simp
qed

lemma initGame_stats [simp]: "stats (initGame j r) = emptyStats"
  by (simp add: initGame_def split: prod.splits)

lemma finishStats_counters [simp]:
  "Tricks (finishStats g) = Tricks (stats g)"
  "PlayerATricks (finishStats g) = PlayerATricks (stats g)"
  "PlayerBTricks (finishStats g) = PlayerBTricks (stats g)"
  by (simp_all add: finishStats_def Let_def)

lemma cards_win [simp]: "cards (win pile p) = cards p + length pile"
  by (simp add: win_def cards_def)

lemma awardWar_some_player_holds:
  assumes "res = WarResult 1 1 0 \<or> res = WarResult 2 0 1"
  shows "0 < cards (playerA (awardWar res [a, b] g)) \<or> 0 < cards (playerB (awardWar res [a, b] g))"
  using assms by (auto simp: awardWar_def Let_def)

lemma playTrick_some_player_holds:
  "0 < cards (playerA (playTrick hT sT mT g)) \<or> 0 < cards (playerB (playTrick hT sT mT g))"
proof (cases rule: playTrick_cases [of hT sT g mT])
  case (war cardA cardB g1 result g2)
  have "result = WarResult 1 1 0 \<or> result = WarResult 2 0 1"
    using handleWar_result(1) [of hT sT mT g1 "[cardA, cardB]" 1] war(3) by simp
  then show ?thesis
    unfolding war(4) by (rule awardWar_some_player_holds)
next
  case (winA cardA cardB g1)
  then show ?thesis by simp
next
  case (winB cardA cardB g1)
  then show ?thesis by simp
qed

lemma playTrick_Winner: "Winner (stats (playTrick hT sT mT g)) = Winner (stats g)"
proof (cases rule: playTrick_cases [of hT sT g mT])
  case (war cardA cardB g1 result g2)
  have "Winner (stats g2) = Winner (stats g1)"
    using handleWar_frame(1) [of hT sT mT g1 "[cardA, cardB]" 1] war(3) by simp
  then show ?thesis
    using war(4) trickDraw_stats(4) [OF war(1)] by simp
next
  case (winA cardA cardB g1)
  then show ?thesis using trickDraw_stats(4) [OF winA(1)] by simp
next
  case (winB cardA cardB g1)
  then show ?thesis using trickDraw_stats(4) [OF winB(1)] by simp
qed

lemma length_createDeck: "length (createDeck j) = (if j then 54 else 52)"
proof -
  have "length (createDeck True) = 54" "length (createDeck False) = 52"
    by code_simp+
  then show ?thesis by (cases j) simp_all
qed

lemma initGame_piles:
  "length (DrawPile (playerA (initGame j r))) = (if j then 27 else 26)"
  "length (DrawPile (playerB (initGame j r))) = (if j then 27 else 26)"
  "WinningsPile (playerA (initGame j r)) = []"
  "WinningsPile (playerB (initGame j r)) = []"
  "totalTime (initGame j r) = 0"
proof -
  obtain deck r' where sh: "shuffleDeck (createDeck j) r = (deck, r')"
    by (metis prod.exhaust)
  have len: "length deck = (if j then 54 else 52)"
    using length_shuffleDeck [OF sh] length_createDeck by simp
  show "length (DrawPile (playerA (initGame j r))) = (if j then 27 else 26)"
    "length (DrawPile (playerB (initGame j r))) = (if j then 27 else 26)"
    "WinningsPile (playerA (initGame j r)) = []"
    "WinningsPile (playerB (initGame j r)) = []"
    "totalTime (initGame j r) = 0"
    using len by (simp_all add: initGame_def sh)
qed

lemma initGame_cards:
  "cards (playerA (initGame j r)) = (if j then 27 else 26)"
  "cards (playerB (initGame j r)) = (if j then 27 else 26)"
  by (simp_all add: cards_def initGame_piles)

subsection \<open>The first trick\<close>

lemma wrap64_id: "- (2 ^ 63) \<le> x \<Longrightarrow> x < 2 ^ 63 \<Longrightarrow> wrap64 x = x"
  by (simp add: wrap64_def)

lemma drawCard_nonempty:
  "DrawPile p \<noteq> [] \<Longrightarrow> drawCard p r = ((hd (DrawPile p), 0), p\<lparr>DrawPile := tl (DrawPile p)\<rparr>, r)"
  by (simp add: drawCard_def)

lemma trickDraw_nonempty:
  assumes "DrawPile (playerA g) \<noteq> []" and "DrawPile (playerB g) \<noteq> []"
    and "trickDraw hT sT g = (cardA, cardB, g1)"
  shows "totalTime g1 = wrap64 (wrap64 (totalTime g + hT) + wrap64 0)"
    and "cards (playerA g1) + 1 = cards (playerA g)"
    and "cards (playerB g1) + 1 = cards (playerB g)"
  using assms by (auto simp: trickDraw_def drawCard_nonempty cards_def)

lemma awardWar_keeps:
  "totalTime (awardWar res pile g) = totalTime g"
  "cards (playerA g) \<le> cards (playerA (awardWar res pile g))"
  "cards (playerB g) \<le> cards (playerB (awardWar res pile g))"
  by (simp_all add: awardWar_def Let_def)

lemma handleWar_timeout:
  "maxGameTime \<le> totalTime (warEnter handTime depth g) \<Longrightarrow>
     handleWar handTime shuffleTime maxGameTime g warPile depth
       = (timeoutResult (playerA g) (playerB g), warEnter handTime depth g)"
  by (simp add: handleWar.simps)

lemma first_trick_small_ceiling:
  assumes "0 < mT" "mT < hT" "hT < 2 ^ 62"
  shows "mT \<le> totalTime (playTrick hT sT mT (initGame j r))"
    and "0 < cards (playerA (playTrick hT sT mT (initGame j r)))"
    and "0 < cards (playerB (playTrick hT sT mT (initGame j r)))"
proof -
  let ?g = "initGame j r"
  have ne: "DrawPile (playerA ?g) \<noteq> []" "DrawPile (playerB ?g) \<noteq> []"
    using initGame_piles(1,2) [of j r] by (auto split: if_splits)
  have w1: "wrap64 hT = hT"
    using assms by (intro wrap64_id) simp_all
  have w2: "wrap64 (2 * hT) = 2 * hT"
    using assms by (intro wrap64_id) simp_all
  have w0: "wrap64 0 = 0" by (simp add: wrap64_def)
  have "mT \<le> totalTime (playTrick hT sT mT ?g)
      \<and> 0 < cards (playerA (playTrick hT sT mT ?g)) \<and> 0 < cards (playerB (playTrick hT sT mT ?g))"
  proof (cases rule: playTrick_cases [of hT sT ?g mT])
    case (war cardA cardB g1 result g2)
    note d = trickDraw_nonempty [OF ne war(1)]
    have t1: "totalTime g1 = hT"
      using d(1) by (simp add: initGame_piles w0 w1)
    have "totalTime (warEnter hT 1 g1) = 2 * hT"
      by (simp add: warEnter_def t1 w2)
    then have "handleWar hT sT mT g1 [cardA, cardB] 1
        = (timeoutResult (playerA g1) (playerB g1), warEnter hT 1 g1)"
      using assms by (intro handleWar_timeout) simp
    then have g2: "g2 = warEnter hT 1 g1"
      using war(3) by simp
    have "totalTime g2 = 2 * hT" "cards (playerA g2) = cards (playerA g1)"
      "cards (playerB g2) = cards (playerB g1)"
      unfolding g2 by (simp_all add: warEnter_def t1 w2)
    moreover have "0 < cards (playerA g1)" "0 < cards (playerB g1)"
      using d(2,3) initGame_cards [of j r] by (auto split: if_splits)
    ultimately show ?thesis
      unfolding war(4)
      using awardWar_keeps [where res = result and pile = "[cardA, cardB]" and g = g2] assms
      by auto
  next
    case (winA cardA cardB g1)
    note d = trickDraw_nonempty [OF ne winA(1)]
    have "totalTime g1 = hT"
      using d(1) by (simp add: initGame_piles w0 w1)
    moreover have "0 < cards (playerA g1)" "0 < cards (playerB g1)"
      using d(2,3) initGame_cards [of j r] by (auto split: if_splits)
    ultimately show ?thesis
      unfolding winA(3) using assms by simp
  next
    case (winB cardA cardB g1)
    note d = trickDraw_nonempty [OF ne winB(1)]
    have "totalTime g1 = hT"
      using d(1) by (simp add: initGame_piles w0 w1)
    moreover have "0 < cards (playerA g1)" "0 < cards (playerB g1)"
      using d(2,3) initGame_cards [of j r] by (auto split: if_splits)
    ultimately show ?thesis
      unfolding winB(3) using assms by simp
  qed
  then show "mT \<le> totalTime (playTrick hT sT mT (initGame j r))"
    and "0 < cards (playerA (playTrick hT sT mT (initGame j r)))"
    and "0 < cards (playerB (playTrick hT sT mT (initGame j r)))"
    by simp_all
qed

subsection \<open>Concrete random sources\<close>

text \<open>
  \<^verbatim>\<open>rand.Shuffle\<close> on 52 cards asks for 51 values, for \<open>i = 51, 50, \<dots>, 1\<close>. A source
  that answers \<open>i\<close> at step \<open>i\<close> leaves the deck in the order of \<^verbatim>\<open>createDeck\<close>;
  \<open>warDeal\<close> answers 0 at \<open>i = 24\<close> instead, which brings an eight to the front of
  player A's half, opposite the eight at the front of player B's half.
\<close>

definition warDeal :: Rand where
  "warDeal = \<lparr>src = (\<lambda>p. if p = 27 then 0 else 51 - p), pos = 0\<rparr>"

text \<open>\<open>plainDeal\<close> leaves the deck in the order of \<^verbatim>\<open>createDeck\<close>: player A is dealt
  the ranks 2 to 8 and player B the ranks 8 to 14, and the first trick is 2 against 8.\<close>

definition plainDeal :: Rand where
  "plainDeal = \<lparr>src = (\<lambda>p. 51 - p), pos = 0\<rparr>"

text \<open>A player who has played the whole draw pile and has won three cards.\<close>

definition spentPlayer :: Player where
  "spentPlayer = \<lparr>DrawPile = [], WinningsPile = [Card 3, Card 9, Card 5]\<rparr>"

text \<open>The first trick of the game dealt by \<open>warDeal\<close>, up to the comparison: the two
  cards drawn (eight against eight) and the state, 25 cards on each side.\<close>

definition tiedTrick :: "Card \<times> Card \<times> Game" where
  "tiedTrick = trickDraw 500 15000 (initGame False warDeal)"

subsection \<open>Counting the iterations of the main loop\<close>

text \<open>The number of times the body of the main loop runs from state \<open>g\<close>.\<close>

function loopIterations :: "int \<Rightarrow> int \<Rightarrow> int \<Rightarrow> Game \<Rightarrow> nat" where
  "loopIterations handTime shuffleTime maxGameTime g =
     (if loopCond maxGameTime g
      then Suc (loopIterations handTime shuffleTime maxGameTime
                  (playTrick handTime shuffleTime maxGameTime g))
      else 0)"
  by pat_completeness auto

termination loopIterations
  by (relation "measure (\<lambda>(hT, sT, mT, g). nat (100000 - Tricks (stats g)))")
     (simp_all add: loopCond_def playTrick_Tricks)

declare loopIterations.simps [simp del]

lemma loopIterations_bound:
  "loopIterations hT sT mT g \<le> nat (100000 - Tricks (stats g))"
proof (induction hT sT mT g rule: loopIterations.induct)
  case (1 hT sT mT g)
  show ?case
  proof (cases "loopCond mT g")
    case True
    then have "Tricks (stats g) < 100000" by (simp add: loopCond_def)
    then show ?thesis
      using True 1 by (simp add: loopIterations.simps [of hT sT mT g] playTrick_Tricks)
  next
    case False
    then show ?thesis by (simp add: loopIterations.simps [of hT sT mT g])
  qed
qed

lemma playLoop_funpow:
  "playLoop hT sT mT g = ((playTrick hT sT mT) ^^ loopIterations hT sT mT g) g"
proof (induction hT sT mT g rule: playLoop.induct)
  case (1 hT sT mT g)
  show ?case
  proof (cases "loopCond mT g")
    case True
    then show ?thesis
      using 1 by (simp add: playLoop.simps [of hT sT mT g] loopIterations.simps [of hT sT mT g]
          funpow_swap1)
  next
    case False
    then show ?thesis
      by (simp add: playLoop.simps [of hT sT mT g] loopIterations.simps [of hT sT mT g])
  qed
qed

lemma playLoop_Tricks:
  "Tricks (stats (playLoop hT sT mT g)) = Tricks (stats g) + int (loopIterations hT sT mT g)"
proof (induction hT sT mT g rule: playLoop.induct)
  case (1 hT sT mT g)
  show ?case
  proof (cases "loopCond mT g")
    case True
    then show ?thesis
      using 1 by (simp add: playLoop.simps [of hT sT mT g] loopIterations.simps [of hT sT mT g]
          playTrick_Tricks)
  next
    case False
    then show ?thesis
      by (simp add: playLoop.simps [of hT sT mT g] loopIterations.simps [of hT sT mT g])
  qed
qed

text \<open>One trick books one trick win, for one player.\<close>

lemma playTrick_credits_one:
  "(PlayerATricks (stats (playTrick hT sT mT g)) = PlayerATricks (stats g) + 1
      \<and> PlayerBTricks (stats (playTrick hT sT mT g)) = PlayerBTricks (stats g))
   \<or> (PlayerATricks (stats (playTrick hT sT mT g)) = PlayerATricks (stats g)
      \<and> PlayerBTricks (stats (playTrick hT sT mT g)) = PlayerBTricks (stats g) + 1)"
proof (cases rule: playTrick_cases [of hT sT g mT])
  case (war cardA cardB g1 result g2)
  have fr: "PlayerATricks (stats g2) = PlayerATricks (stats g1)"
    "PlayerBTricks (stats g2) = PlayerBTricks (stats g1)"
    using handleWar_frame(1) [of hT sT mT g1 "[cardA, cardB]" 1] war(3) by simp_all
  have "result = WarResult 1 1 0 \<or> result = WarResult 2 0 1"
    using handleWar_result(1) [of hT sT mT g1 "[cardA, cardB]" 1] war(3) by simp
  then show ?thesis
    using war(4) fr trickDraw_stats(2,3) [OF war(1)] by auto
next
  case (winA cardA cardB g1)
  then show ?thesis using trickDraw_stats(2,3) [OF winA(1)] by simp
next
  case (winB cardA cardB g1)
  then show ?thesis using trickDraw_stats(2,3) [OF winB(1)] by simp
qed

section \<open>Claims\<close>

text \<open>
  C9. The main loop of \<^verbatim>\<open>playGame\<close> is the body \<open>playTrick\<close> run \<open>loopIterations\<close>
  times from the deal. From every state, one run of the body adds one to the trick
  counter and credits exactly one trick win to exactly one player: either player
  A's counter grows by one and player B's stays, or the other way round. A trick
  resolved by a war is credited through the result of \<^verbatim>\<open>handleWar\<close>, which on every
  path (war, deep war, war timeout, a player out of cards during the draw or at
  the deep-war check) is player 1 with one win for A or player 2 with one win for
  B. So after every call of \<^verbatim>\<open>playGame\<close>, whatever the configuration and the random
  source, the two per-player trick-win counters add up to the trick counter.
\<close>

theorem trick_wins_accounting:
  "playLoop handTime shuffleTime maxGameTime (initGame includeJokers r)
     = (playTrick handTime shuffleTime maxGameTime
          ^^ loopIterations handTime shuffleTime maxGameTime (initGame includeJokers r))
         (initGame includeJokers r)
   \<and> Tricks (stats (playTrick handTime shuffleTime maxGameTime g)) = Tricks (stats g) + 1
   \<and> ((PlayerATricks (stats (playTrick handTime shuffleTime maxGameTime g))
          = PlayerATricks (stats g) + 1
        \<and> PlayerBTricks (stats (playTrick handTime shuffleTime maxGameTime g))
          = PlayerBTricks (stats g))
      \<or> (PlayerATricks (stats (playTrick handTime shuffleTime maxGameTime g))
          = PlayerATricks (stats g)
        \<and> PlayerBTricks (stats (playTrick handTime shuffleTime maxGameTime g))
          = PlayerBTricks (stats g) + 1))
   \<and> (fst (handleWar handTime shuffleTime maxGameTime g warPile depth) = WarResult 1 1 0
      \<or> fst (handleWar handTime shuffleTime maxGameTime g warPile depth) = WarResult 2 0 1)
   \<and> PlayerATricks (fst (playGame handTime shuffleTime includeJokers maxGameTime r))
       + PlayerBTricks (fst (playGame handTime shuffleTime includeJokers maxGameTime r))
     = Tricks (fst (playGame handTime shuffleTime includeJokers maxGameTime r))
   \<and> Tricks (fst (playGame handTime shuffleTime includeJokers maxGameTime r))
     = int (loopIterations handTime shuffleTime maxGameTime (initGame includeJokers r))"
proof -
  let ?I = "\<lambda>g. PlayerATricks (stats g) + PlayerBTricks (stats g) = Tricks (stats g)"
  have "?I (initGame includeJokers r)"
    by (simp add: emptyStats_def)
  then have "?I (playLoop handTime shuffleTime maxGameTime (initGame includeJokers r))"
    by (rule playLoop_invariant) (rule playTrick_trick_wins)
  then have sum: "PlayerATricks (fst (playGame handTime shuffleTime includeJokers maxGameTime r))
       + PlayerBTricks (fst (playGame handTime shuffleTime includeJokers maxGameTime r))
     = Tricks (fst (playGame handTime shuffleTime includeJokers maxGameTime r))"
    by (simp add: playGame_def Let_def)
  have iters: "Tricks (fst (playGame handTime shuffleTime includeJokers maxGameTime r))
     = int (loopIterations handTime shuffleTime maxGameTime (initGame includeJokers r))"
    by (simp add: playGame_def Let_def playLoop_Tricks emptyStats_def)
  show ?thesis
    using sum iters
      playLoop_funpow [of handTime shuffleTime maxGameTime "initGame includeJokers r"]
      playTrick_Tricks [of handTime shuffleTime maxGameTime g]
      playTrick_credits_one [of handTime shuffleTime maxGameTime g]
      handleWar_result(1) [of handTime shuffleTime maxGameTime g warPile depth]
    by blast
qed

text \<open>
  C8. For every game, with \<open>g\<close> the state in which the main loop exits: the returned
  record has \<^verbatim>\<open>Finished\<close> set exactly when a player holds no card in \<open>g\<close>; then the
  other player holds cards and is the recorded winner (2 when A is out, 1 when B
  is out); and when both players still hold cards, so that the loop left through
  the ceiling of 100000 tricks or the time ceiling, \<^verbatim>\<open>Finished\<close> is false and
  \<^verbatim>\<open>Winner\<close> keeps its zero value.
\<close>

theorem playGame_finished_winner:
  "(let g = playLoop handTime shuffleTime maxGameTime (initGame includeJokers r);
        s = fst (playGame handTime shuffleTime includeJokers maxGameTime r)
    in (Finished s \<longleftrightarrow> cards (playerA g) = 0 \<or> cards (playerB g) = 0)
       \<and> (cards (playerA g) = 0 \<longrightarrow> 0 < cards (playerB g) \<and> Finished s \<and> Winner s = 2)
       \<and> (cards (playerB g) = 0 \<longrightarrow> 0 < cards (playerA g) \<and> Finished s \<and> Winner s = 1)
       \<and> (0 < cards (playerA g) \<and> 0 < cards (playerB g) \<longrightarrow>
            \<not> Finished s \<and> Winner s = 0
            \<and> (100000 \<le> Tricks (stats g) \<or> maxGameTime \<le> totalTime g)))"
proof -
  define g where "g = playLoop handTime shuffleTime maxGameTime (initGame includeJokers r)"
  let ?I = "\<lambda>g. Winner (stats g) = 0 \<and> (0 < cards (playerA g) \<or> 0 < cards (playerB g))"
  have "?I (initGame includeJokers r)"
    by (simp add: emptyStats_def initGame_cards)
  then have "?I g"
    unfolding g_def
    by (rule playLoop_invariant) (simp add: playTrick_Winner playTrick_some_player_holds)
  moreover have "\<not> loopCond maxGameTime g"
    unfolding g_def by (rule playLoop_exit)
  ultimately show ?thesis
    unfolding playGame_def Let_def g_def [symmetric]
    by (auto simp: finishStats_def Let_def loopCond_def)
qed

theorem playGame_finished_winner_witness:
  "cards (playerA (playLoop 500 15000 3600000 (initGame False warDeal))) = 0
   \<and> 0 < cards (playerB (playLoop 500 15000 3600000 (initGame False warDeal)))
   \<and> Finished (fst (playGame 500 15000 False 3600000 warDeal))
   \<and> Winner (fst (playGame 500 15000 False 3600000 warDeal)) = 2"
proof -
  have "cards (playerA (playLoop 500 15000 3600000 (initGame False warDeal))) = 0"
    by code_simp
  then show ?thesis
    using playGame_finished_winner [of 500 15000 3600000 False warDeal]
    by (simp add: Let_def)
qed

text \<open>
  C5 (as the code has it). The main loop tests the elapsed time before it charges
  the trick, and the elapsed time starts at zero. So for every configuration with
  \<open>0 < maxGameTimeMs < handTimeMs\<close> (and \<open>handTimeMs\<close> below \<open>2^62\<close>, so that the
  two charges of a tied first trick do not wrap the 64-bit counter), \<^verbatim>\<open>playGame\<close>
  returns a record with \<^verbatim>\<open>Finished\<close> false and a trick count of one, not zero.
\<close>

theorem playGame_small_ceiling_one_trick:
  assumes "0 < maxGameTime" and "maxGameTime < handTime" and "handTime < 2 ^ 62"
  shows "Tricks (fst (playGame handTime shuffleTime includeJokers maxGameTime r)) = 1
         \<and> \<not> Finished (fst (playGame handTime shuffleTime includeJokers maxGameTime r))"
proof -
  let ?g0 = "initGame includeJokers r"
  let ?g1 = "playTrick handTime shuffleTime maxGameTime ?g0"
  have "loopCond maxGameTime ?g0"
    using assms(1) by (simp add: loopCond_def initGame_cards initGame_piles emptyStats_def)
  moreover have "\<not> loopCond maxGameTime ?g1"
    using first_trick_small_ceiling(1) [OF assms, of shuffleTime includeJokers r]
    by (simp add: loopCond_def)
  ultimately have "playLoop handTime shuffleTime maxGameTime ?g0 = ?g1"
    by (simp add: playLoop.simps [of _ _ _ ?g0] playLoop.simps [of _ _ _ ?g1])
  moreover have "Tricks (stats ?g1) = 1"
    by (simp add: playTrick_Tricks emptyStats_def)
  ultimately show ?thesis
    using first_trick_small_ceiling(2,3) [OF assms, of shuffleTime includeJokers r]
    by (simp add: playGame_def Let_def finishStats_def)
qed

theorem playGame_small_ceiling_one_trick_witness:
  "(0::int) < 1 \<and> (1::int) < 2 \<and> (2::int) < 2 ^ 62
   \<and> Tricks (fst (playGame 2 15000 True 1 warDeal)) = 1
   \<and> \<not> Finished (fst (playGame 2 15000 True 1 warDeal))"
  using playGame_small_ceiling_one_trick [of 1 2 15000 True warDeal] by simp

text \<open>The claim as written fails: with a ceiling of 1 ms and a hand time of 500 ms the
  game plays one trick.\<close>

theorem playGame_small_ceiling_counterexample:
  "(0::int) < 1 \<and> (1::int) < 500
   \<and> Tricks (fst (playGame 500 15000 False 1 plainDeal)) = 1
   \<and> Tricks (fst (playGame 500 15000 False 1 plainDeal)) \<noteq> 0"
  by code_simp

text \<open>
  C4 (as the code has it). When the elapsed time, after the charge for the
  comparison, has reached the ceiling, \<^verbatim>\<open>handleWar\<close> draws nothing and returns
  \<^verbatim>\<open>timeoutResult\<close>: the war goes to player A when A holds strictly more cards
  (draw pile and winnings) than B, and to player B otherwise. So player B takes the
  war when B holds more and also when both hold equally many.
\<close>

theorem handleWar_timeout_award:
  assumes "maxGameTime \<le> wrap64 (totalTime g + handTime)"
  shows "fst (handleWar handTime shuffleTime maxGameTime g warPile depth)
           = (if cards (playerA g) > cards (playerB g) then WarResult 1 1 0 else WarResult 2 0 1)
         \<and> playerA (snd (handleWar handTime shuffleTime maxGameTime g warPile depth)) = playerA g
         \<and> playerB (snd (handleWar handTime shuffleTime maxGameTime g warPile depth)) = playerB g"
proof -
  have "maxGameTime \<le> totalTime (warEnter handTime depth g)"
    using assms by (simp add: warEnter_def)
  then show ?thesis
    by (simp add: handleWar_timeout timeoutResult_def)
qed

theorem handleWar_timeout_award_witness:
  "(1000::int) \<le> wrap64 (totalTime (snd (snd tiedTrick)) + 500)
   \<and> cards (playerA (snd (snd tiedTrick))) = 25 \<and> cards (playerB (snd (snd tiedTrick))) = 25
   \<and> fst (handleWar 500 15000 1000 (snd (snd tiedTrick)) [fst tiedTrick, fst (snd tiedTrick)] 1)
       = WarResult 2 0 1"
proof -
  have h: "(1000::int) \<le> wrap64 (totalTime (snd (snd tiedTrick)) + 500)"
    "cards (playerA (snd (snd tiedTrick))) = 25" "cards (playerB (snd (snd tiedTrick))) = 25"
    by code_simp+
  show ?thesis
    using h handleWar_timeout_award [OF h(1), of 15000 "[fst tiedTrick, fst (snd tiedTrick)]" 1]
    by simp
qed

text \<open>The claim as written fails where it gives ties to player A: in the first trick
  dealt by \<open>warDeal\<close> both cards are eights, both players hold 25 cards, the ceiling
  of 1000 ms is reached by the comparison's charge, and the war goes to player B.\<close>

theorem handleWar_timeout_tie_counterexample:
  "Rank (fst tiedTrick) = Rank (fst (snd tiedTrick))
   \<and> cards (playerA (snd (snd tiedTrick))) = cards (playerB (snd (snd tiedTrick)))
   \<and> (1000::int) \<le> wrap64 (totalTime (snd (snd tiedTrick)) + 500)
   \<and> resWinner (fst (handleWar 500 15000 1000 (snd (snd tiedTrick))
                        [fst tiedTrick, fst (snd tiedTrick)] 1)) = 2
   \<and> PlayerATricks (fst (playGame 500 15000 False 1000 warDeal)) = 0
   \<and> PlayerBTricks (fst (playGame 500 15000 False 1000 warDeal)) = 1"
  by code_simp

subsection \<open>Shuffling permutes\<close>

lemma mset_swap_deck: "i < length deck \<Longrightarrow> j < length deck \<Longrightarrow> mset (swap i j deck) = mset deck"
  unfolding swap_def by (rule mset_swap)

lemma mset_shuffleFrom:
  "i < length deck \<Longrightarrow> shuffleFrom i deck r = (deck', r') \<Longrightarrow> mset deck' = mset deck"
proof (induction i arbitrary: deck r)
  case 0
  then show ?case by simp
next
  case (Suc i)
  let ?j = "src r (pos r) mod (Suc i + 1)"
  have j: "?j < length deck"
  proof -
    have "?j < Suc i + 1" by (rule mod_less_divisor) simp
    then show ?thesis using Suc.prems(1) by linarith
  qed
  have "shuffleFrom i (swap (Suc i) ?j deck) (r\<lparr>pos := pos r + 1\<rparr>) = (deck', r')"
    using Suc.prems(2) by (simp add: Intn_def)
  then have "mset deck' = mset (swap (Suc i) ?j deck)"
    using Suc.prems(1) by (intro Suc.IH) simp_all
  then show ?case
    using mset_swap_deck [OF Suc.prems(1) j] by simp
qed

lemma mset_shuffleDeck: "shuffleDeck deck r = (deck', r') \<Longrightarrow> mset deck' = mset deck"
proof (cases "deck = []")
  case True
  assume "shuffleDeck deck r = (deck', r')"
  with True show ?thesis by (simp add: shuffleDeck_def)
next
  case False
  assume "shuffleDeck deck r = (deck', r')"
  with False show ?thesis
    unfolding shuffleDeck_def by (intro mset_shuffleFrom [of "length deck - 1" deck r deck' r']) simp_all
qed

text \<open>
  C2 (what the code does). For a player whose draw pile is empty and whose winnings
  pile is not, \<^verbatim>\<open>drawCard\<close> makes the shuffled winnings pile the draw pile, empties
  the winnings pile and returns the front card of the new draw pile with a
  reshuffle signal of 1. It does not remove that card: the new draw pile is a
  permutation of the whole old winnings pile, the returned card is still its front
  card, and the player's card count is what it was, not one less. The branch for
  a non-empty draw pile does remove the card it returns.
\<close>

theorem drawCard_reshuffle_keeps_front_card:
  assumes "DrawPile player = []" and "WinningsPile player \<noteq> []"
  shows "fst (drawCard player r) = (hd (fst (shuffleDeck (WinningsPile player) r)), 1)
         \<and> DrawPile (fst (snd (drawCard player r))) = fst (shuffleDeck (WinningsPile player) r)
         \<and> WinningsPile (fst (snd (drawCard player r))) = []
         \<and> mset (DrawPile (fst (snd (drawCard player r)))) = mset (WinningsPile player)
         \<and> hd (DrawPile (fst (snd (drawCard player r)))) = fst (fst (drawCard player r))
         \<and> cards (fst (snd (drawCard player r))) = cards player"
proof -
  obtain pile r' where sh: "shuffleDeck (WinningsPile player) r = (pile, r')"
    by (metis prod.exhaust)
  have "drawCard player r = ((hd pile, 1), player\<lparr>DrawPile := pile, WinningsPile := []\<rparr>, r')"
    using assms by (simp add: drawCard_def sh)
  then show ?thesis
    using mset_shuffleDeck [OF sh] length_shuffleDeck [OF sh] assms
    by (simp add: sh cards_def)
qed

theorem drawCard_reshuffle_keeps_front_card_witness:
  "DrawPile spentPlayer = [] \<and> WinningsPile spentPlayer \<noteq> []
   \<and> cards spentPlayer = 3
   \<and> fst (drawCard spentPlayer plainDeal) = (Card 9, 1)
   \<and> DrawPile (fst (snd (drawCard spentPlayer plainDeal))) = [Card 9, Card 5, Card 3]
   \<and> cards (fst (snd (drawCard spentPlayer plainDeal))) = 3"
proof -
  have h: "DrawPile spentPlayer = []" "WinningsPile spentPlayer \<noteq> []"
    by (simp_all add: spentPlayer_def)
  have sh: "fst (shuffleDeck (WinningsPile spentPlayer) plainDeal) = [Card 9, Card 5, Card 3]"
    by code_simp
  have c: "cards spentPlayer = 3"
    by (simp add: cards_def spentPlayer_def)
  show ?thesis
    using drawCard_reshuffle_keeps_front_card [OF h, of plainDeal] h sh c by simp
qed

subsection \<open>Equations for evaluation\<close>

text \<open>
  The simplifier rewrites below a \<open>case\<close> binder before the value bound is known.
  In \<open>trickDraw\<close> and \<open>warDraw\<close> the second player's draw stands below the binder
  of the first player's result, generator included, so a reshuffle there would be
  rewritten with an unknown generator. The equations below say the same with the
  first result matched by an argument pattern; they are proved equal to the
  definitions and serve to evaluate concrete games only.
\<close>

fun trickDrawB ::
  "int \<Rightarrow> int \<Rightarrow> Game \<Rightarrow> (Card \<times> int) \<times> Player \<times> Rand \<Rightarrow> (Card \<times> int) \<times> Player \<times> Rand
     \<Rightarrow> Card \<times> Card \<times> Game" where
  "trickDrawB handTime shuffleTime g ((cardA, shuffledA), pA, rA) ((cardB, shuffledB), pB, rB) =
     (cardA, cardB,
      g\<lparr>playerA := pA, playerB := pB,
        stats := (stats g)\<lparr>Tricks := Tricks (stats g) + 1,
                             ShufflesA := ShufflesA (stats g) + shuffledA,
                             ShufflesB := ShufflesB (stats g) + shuffledB\<rparr>,
        totalTime := wrap64 (wrap64 (totalTime g + handTime)
                             + wrap64 ((shuffledA + shuffledB) * shuffleTime)),
        rand := rB\<rparr>)"

fun trickDrawA ::
  "int \<Rightarrow> int \<Rightarrow> Game \<Rightarrow> (Card \<times> int) \<times> Player \<times> Rand \<Rightarrow> Card \<times> Card \<times> Game" where
  "trickDrawA handTime shuffleTime g (cA, pA, rA) =
     trickDrawB handTime shuffleTime g (cA, pA, rA) (drawCard (playerB g) rA)"

lemma trickDraw_code [code]:
  "trickDraw handTime shuffleTime g
     = trickDrawA handTime shuffleTime g (drawCard (playerA g) (rand g))"
  by (simp add: trickDraw_def split: prod.splits)

fun warDrawB ::
  "Game \<Rightarrow> Card list \<times> Player \<times> int \<times> int \<times> Rand \<Rightarrow> Card list \<times> Player \<times> int \<times> int \<times> Rand
     \<Rightarrow> Card list \<times> Card list \<times> Game" where
  "warDrawB g (cardsA, pA, shA, tA, rA) (cardsB, pB, shB, tB, rB) =
     (cardsA, cardsB,
      g\<lparr>playerA := pA, playerB := pB,
        stats := (stats g)\<lparr>ShufflesA := shA, ShufflesB := shB\<rparr>,
        totalTime := tB, rand := rB\<rparr>)"

fun warDrawA ::
  "int \<Rightarrow> int \<Rightarrow> Game \<Rightarrow> Card list \<times> Player \<times> int \<times> int \<times> Rand \<Rightarrow> Card list \<times> Card list \<times> Game" where
  "warDrawA handTime shuffleTime g (cardsA, pA, shA, tA, rA) =
     warDrawB g (cardsA, pA, shA, tA, rA)
       (drawWarCards (playerB g) (ShufflesB (stats g)) tA handTime shuffleTime rA)"

lemma warDraw_code [code]:
  "warDraw handTime shuffleTime g
     = warDrawA handTime shuffleTime g
         (drawWarCards (playerA g) (ShufflesA (stats g)) (totalTime g) handTime shuffleTime (rand g))"
  by (simp add: warDraw_def split: prod.splits)


text \<open>The same for the loop of \<^verbatim>\<open>drawWarCards\<close>, whose later iterations stand below the
  binders of the earlier ones.\<close>

fun drawWarRest ::
  "nat \<Rightarrow> int \<Rightarrow> int \<Rightarrow> Card list \<Rightarrow> Card \<Rightarrow> Player \<times> int \<times> int \<times> Rand
     \<Rightarrow> Card list \<times> Player \<times> int \<times> int \<times> Rand" where
  "drawWarRest n handTime shuffleTime cs drawn (player, shufflesCount, elapsed, r) =
     (if drawn = Card 0 then (cs, player, shufflesCount, elapsed, r)
      else drawWarLoop n handTime shuffleTime (cs @ [drawn]) (player, shufflesCount, elapsed, r))"

fun drawWarNext ::
  "nat \<Rightarrow> int \<Rightarrow> int \<Rightarrow> Card list \<Rightarrow> int \<Rightarrow> int \<Rightarrow> (Card \<times> int) \<times> Player \<times> Rand
     \<Rightarrow> Card list \<times> Player \<times> int \<times> int \<times> Rand" where
  "drawWarNext n handTime shuffleTime cs shufflesCount elapsed ((drawn, shuffled), player, r) =
     drawWarRest n handTime shuffleTime cs drawn
       (player,
        (if shuffled > 0 then shufflesCount + 1 else shufflesCount),
        wrap64 ((if shuffled > 0 then wrap64 (elapsed + shuffleTime) else elapsed) + handTime),
        r)"

lemma drawWarLoop_code [code]:
  "drawWarLoop 0 handTime shuffleTime cs (player, shufflesCount, elapsed, r) =
     (cs, player, shufflesCount, elapsed, r)"
  "drawWarLoop (Suc n) handTime shuffleTime cs (player, shufflesCount, elapsed, r) =
     drawWarNext n handTime shuffleTime cs shufflesCount elapsed (drawCard player r)"
  by (simp_all add: Let_def split: prod.splits)

subsection \<open>Counting the cards in play\<close>

text \<open>The sum the spec calls card conservation:
  \<^verbatim>\<open>|A.draw| + |A.winnings| + |B.draw| + |B.winnings|\<close>.\<close>

definition totalCards :: "Game \<Rightarrow> nat" where
  "totalCards g = length (DrawPile (playerA g)) + length (WinningsPile (playerA g))
                  + length (DrawPile (playerB g)) + length (WinningsPile (playerB g))"

text \<open>
  \<open>lateDeal\<close> exchanges the first and the last card of the ordered deck, so that
  player A wins the first and the 26th trick, no trick is tied, and after 26 tricks
  both draw piles are empty: A has won 4 cards and B 48. From then on the source
  answers 1, which leaves the front card of a reshuffled pile in place.
\<close>

definition lateDeal :: Rand where
  "lateDeal = \<lparr>src = (\<lambda>p. if p = 0 then 0 else if p < 51 then 51 - p else 1), pos = 0\<rparr>"

text \<open>
  C1 (what the code does). The sum of the four pile sizes is 52 after the deal, but
  the trick loop does not keep it. With \<open>lateDeal\<close>, a hand time of 1 ms and a
  ceiling of 27 ms, the loop condition is evaluated for the last time after 27
  tricks without a war, and the piles hold 54 cards: in the 27th trick both players
  reshuffle, and \<^verbatim>\<open>drawCard\<close> returns the front card of the reshuffled pile without
  taking it off. With \<open>warDeal\<close> the first trick is a war, and at the next
  evaluation of the loop condition the piles hold 44 cards: the eight cards drawn
  in the war were appended to a copy of \<^verbatim>\<open>warPile\<close> that \<^verbatim>\<open>playGame\<close> never sees.
\<close>

theorem card_conservation_broken:
  "totalCards (initGame False lateDeal) = 52
   \<and> Tricks (stats (playLoop 1 0 27 (initGame False lateDeal))) = 27
   \<and> Wars (stats (playLoop 1 0 27 (initGame False lateDeal))) = 0
   \<and> totalCards (playLoop 1 0 27 (initGame False lateDeal)) = 54
   \<and> totalCards (initGame False warDeal) = 52
   \<and> Tricks (stats (playLoop 500 15000 1001 (initGame False warDeal))) = 1
   \<and> totalCards (playLoop 500 15000 1001 (initGame False warDeal)) = 44"
  by code_simp

text \<open>
  C3 (what the code does). In the first trick dealt by \<open>warDeal\<close> both players play
  an eight. In the war player A commits 2, 2, 2 and 3, player B commits 8, 9, 9
  and 9, and B wins. Ten cards were committed; B's winnings pile receives the two
  eights of the trick only, and the eight cards drawn in the war are in no pile
  afterwards (A holds 21 cards, B holds 21 + 2).
\<close>

theorem war_pile_not_transferred:
  "map Rank [fst tiedTrick, fst (snd tiedTrick)] = [8, 8]
   \<and> cards (playerA (snd (snd tiedTrick))) = 25 \<and> cards (playerB (snd (snd tiedTrick))) = 25
   \<and> map Rank (fst (warDraw 500 15000 (warEnter 500 1 (snd (snd tiedTrick))))) = [2, 2, 2, 3]
   \<and> map Rank (fst (snd (warDraw 500 15000 (warEnter 500 1 (snd (snd tiedTrick)))))) = [8, 9, 9, 9]
   \<and> fst (handleWar 500 15000 3600000 (snd (snd tiedTrick)) [fst tiedTrick, fst (snd tiedTrick)] 1)
       = WarResult 2 0 1
   \<and> WinningsPile (playerB (playTrick 500 15000 3600000 (initGame False warDeal))) = [Card 8, Card 8]
   \<and> WinningsPile (playerA (playTrick 500 15000 3600000 (initGame False warDeal))) = []
   \<and> cards (playerA (playTrick 500 15000 3600000 (initGame False warDeal))) = 21
   \<and> cards (playerB (playTrick 500 15000 3600000 (initGame False warDeal))) = 23"
  by code_simp

subsection \<open>The counters of a war\<close>

text \<open>The war comparison of \<^verbatim>\<open>handleWar\<close> at \<open>depth\<close>, entered in state \<open>g\<close>, is a tie:
  the ceiling is not reached, both players obtain cards, and the last cards they
  obtained have the same rank (lines 176--193).\<close>

definition comparisonTies :: "int \<Rightarrow> int \<Rightarrow> int \<Rightarrow> Game \<Rightarrow> int \<Rightarrow> bool" where
  "comparisonTies handTime shuffleTime maxGameTime g depth \<longleftrightarrow>
     \<not> maxGameTime \<le> totalTime (warEnter handTime depth g)
     \<and> fst (warDraw handTime shuffleTime (warEnter handTime depth g)) \<noteq> []
     \<and> fst (snd (warDraw handTime shuffleTime (warEnter handTime depth g))) \<noteq> []
     \<and> Rank (last (fst (warDraw handTime shuffleTime (warEnter handTime depth g))))
         = Rank (last (fst (snd (warDraw handTime shuffleTime (warEnter handTime depth g)))))"

text \<open>The state in which \<^verbatim>\<open>handleDeepWar\<close> is entered after such a tie.\<close>

definition afterWarDraw :: "int \<Rightarrow> int \<Rightarrow> Game \<Rightarrow> int \<Rightarrow> Game" where
  "afterWarDraw handTime shuffleTime g depth =
     snd (snd (warDraw handTime shuffleTime (warEnter handTime depth g)))"

text \<open>\<^verbatim>\<open>stats.DeepWars++\<close>, the first line of \<^verbatim>\<open>handleDeepWar\<close>.\<close>

definition deepEnter :: "Game \<Rightarrow> Game" where
  "deepEnter g = g\<lparr>stats := (stats g)\<lparr>DeepWars := DeepWars (stats g) + 1\<rparr>\<rparr>"

definition warCounters :: "Game \<Rightarrow> int \<times> int \<times> int" where
  "warCounters g = (Wars (stats g), DeepWars (stats g), TotalWarDepth (stats g))"

lemma warCounters_afterWarDraw:
  "warCounters (afterWarDraw hT sT g d)
     = (Wars (stats g) + 1, DeepWars (stats g), TotalWarDepth (stats g) + d)"
proof -
  obtain cardsA cardsB g2 where w: "warDraw hT sT (warEnter hT d g) = (cardsA, cardsB, g2)"
    by (metis prod.exhaust)
  have "afterWarDraw hT sT g d = g2"
    by (simp add: afterWarDraw_def w)
  moreover have "Wars (stats (warEnter hT d g)) = Wars (stats g) + 1"
    "DeepWars (stats (warEnter hT d g)) = DeepWars (stats g)"
    "TotalWarDepth (stats (warEnter hT d g)) = TotalWarDepth (stats g) + d"
    by (simp_all add: warEnter_def)
  ultimately show ?thesis
    using warDraw_frame(5-7) [OF w] by (simp add: warCounters_def)
qed

lemma handleWar_no_tie:
  assumes "\<not> comparisonTies hT sT mT g d"
  shows "warCounters (snd (handleWar hT sT mT g wp d))
           = (Wars (stats g) + 1, DeepWars (stats g), TotalWarDepth (stats g) + d)"
proof (cases "mT \<le> totalTime (warEnter hT d g)")
  case True
  then show ?thesis
    by (simp add: handleWar_timeout warCounters_def warEnter_def)
next
  case False
  obtain cardsA cardsB g2 where w: "warDraw hT sT (warEnter hT d g) = (cardsA, cardsB, g2)"
    by (metis prod.exhaust)
  have "snd (handleWar hT sT mT g wp d) = g2"
    using False assms w by (auto simp: handleWar.simps comparisonTies_def)
  then show ?thesis
    using warCounters_afterWarDraw [of hT sT g d] by (simp add: afterWarDraw_def w)
qed

lemma handleWar_tie:
  assumes "comparisonTies hT sT mT g d"
  shows "\<exists>wp'. handleWar hT sT mT g wp d = handleDeepWar hT sT mT (afterWarDraw hT sT g d) wp' d"
proof -
  obtain cardsA cardsB g2 where w: "warDraw hT sT (warEnter hT d g) = (cardsA, cardsB, g2)"
    by (metis prod.exhaust)
  have "handleWar hT sT mT g wp d
      = handleDeepWar hT sT mT g2 (wp @ butlast cardsA @ butlast cardsB @ [last cardsA, last cardsB]) d"
    using assms w by (simp add: handleWar.simps comparisonTies_def)
  then show ?thesis
    by (auto simp: afterWarDraw_def w)
qed

lemma handleDeepWar_guard:
  "cards (playerA g) = 0 \<or> cards (playerB g) = 0 \<Longrightarrow>
     snd (handleDeepWar hT sT mT g wp d) = deepEnter g"
  by (auto simp: handleDeepWar.simps deepEnter_def)

lemma handleDeepWar_nested:
  "cards (playerA g) \<noteq> 0 \<Longrightarrow> cards (playerB g) \<noteq> 0 \<Longrightarrow>
     handleDeepWar hT sT mT g wp d = handleWar hT sT mT (deepEnter g) wp (d + 1)"
  by (simp add: handleDeepWar.simps deepEnter_def)


text \<open>
  \<open>guardDeal\<close> deals player A the ranks
  2 5 5 5 5 2 6 6 6 6 3 7 7 7 7 3 8 8 8 8 9 4 9 9 9 4 and player B the ranks
  2 10 10 10 10 2 11 11 11 11 3 12 12 12 12 3 13 13 13 13 14 4 14 14 14 4:
  four wars that B wins on the first comparison, a plain trick for B, and a sixth
  trick (4 against 4) in which A commits the last four cards and the comparison
  (4 against 4) ties. \<open>deepDeal\<close> starts A with 2 5 5 5 3 6 6 6 7 and B with
  2 10 10 10 3 11 11 11 12: a tie, a war comparison that ties, and a nested war
  that B wins.
\<close>

definition guardDeal :: Rand where
  "guardDeal = \<lparr>src = (\<lambda>p. if p < 51 then
      [11, 50, 49, 48, 10, 11, 45, 44, 11, 10, 7, 40, 11, 10, 7, 6, 11, 10, 7, 6, 3, 11, 10, 7, 6,
       2, 9, 11, 10, 7, 8, 3, 11, 9, 6, 2, 5, 10, 8, 7, 3, 4, 9, 6, 3, 2, 1, 4, 3, 2, 1] ! p
     else 0), pos = 0\<rparr>"

definition deepDeal :: Rand where
  "deepDeal = \<lparr>src = (\<lambda>p. if p < 51 then
      [51, 50, 49, 48, 47, 46, 45, 44, 43, 42, 41, 39, 35, 31, 30, 29, 28, 28, 31, 30, 29, 7, 29,
       28, 7, 3, 25, 24, 7, 3, 21, 20, 7, 18, 15, 11, 10, 9, 8, 6, 5, 2, 1, 3, 7, 5, 2, 4, 3, 2, 1] ! p
     else 0), pos = 0\<rparr>"

text \<open>The state after the draw of the sixth trick of the \<open>guardDeal\<close> game (hand time
  1 ms, no ceiling in reach; the first five tricks take 41 ms), and the state after
  the draw of the first trick of the \<open>deepDeal\<close> game.\<close>

definition guardTrick :: Game where
  "guardTrick = snd (snd (trickDraw 1 0 (playLoop 1 0 41 (initGame False guardDeal))))"

definition deepTrick :: Game where
  "deepTrick = snd (snd (trickDraw 1 0 (initGame False deepDeal)))"

text \<open>\<open>tripleDeal\<close> starts A with 2 5 5 5 3 6 6 6 4 7 7 7 8 and B with
  2 10 10 10 3 11 11 11 4 12 12 12 9: a tie, a war comparison that ties, a nested
  comparison that ties as well, and a third comparison that B wins.\<close>

definition tripleDeal :: Rand where
  "tripleDeal = \<lparr>src = (\<lambda>p. if p < 51 then
      [51, 50, 49, 48, 47, 46, 45, 44, 43, 39, 35, 31, 30, 29, 35, 31, 30, 11, 31, 30, 29, 7, 29,
       11, 7, 3, 11, 24, 11, 7, 21, 19, 15, 10, 9, 6, 5, 2, 1, 3, 11, 7, 5, 8, 7, 6, 5, 4, 3, 2, 1] ! p
     else 0), pos = 0\<rparr>"

definition tripleTrick :: Game where
  "tripleTrick = snd (snd (trickDraw 1 0 (initGame False tripleDeal)))"

text \<open>
  C6 (as the code has it). For a war entered at depth \<open>d\<close> (\<open>d = 1\<close> for the war that
  a tied trick starts):
  \<^item> if its comparison is not a tie (it resolves on the comparison, or the ceiling is
    reached, or a player obtains no card), the war counter grows by exactly 1, the
    deep-war counter by exactly 0 and the depth sum by \<open>d\<close>;
  \<^item> if its comparison ties and a player holds no card after the war draw,
    \<^verbatim>\<open>handleDeepWar\<close> counts the deep war and returns without a nested war: the war
    counter grows by 1, the deep-war counter by 1 and the depth sum by \<open>d\<close> only;
  \<^item> if its comparison ties and both players still hold cards, the deep war is
    counted and the war goes on as a nested war at depth \<open>d + 1\<close>, entered with the
    counters at (wars + 1, deep wars + 1, depth sum + \<open>d\<close>) and accounted by these
    same rules, so that every further tie counts one more deep war;
  \<^item> in particular, if the comparison of that nested war is not a tie, the war counter
    has grown by 2, the deep-war counter by exactly 1 and the depth sum by
    \<open>d + (d + 1)\<close>, which is 1 + 2 for a tie at depth 1.
\<close>

theorem war_counter_accounting:
  "(\<not> comparisonTies hT sT mT g d \<longrightarrow>
      warCounters (snd (handleWar hT sT mT g wp d))
        = (Wars (stats g) + 1, DeepWars (stats g), TotalWarDepth (stats g) + d))
   \<and> (comparisonTies hT sT mT g d
        \<and> (cards (playerA (afterWarDraw hT sT g d)) = 0 \<or> cards (playerB (afterWarDraw hT sT g d)) = 0) \<longrightarrow>
      warCounters (snd (handleWar hT sT mT g wp d))
        = (Wars (stats g) + 1, DeepWars (stats g) + 1, TotalWarDepth (stats g) + d))
   \<and> (comparisonTies hT sT mT g d
        \<and> cards (playerA (afterWarDraw hT sT g d)) \<noteq> 0 \<and> cards (playerB (afterWarDraw hT sT g d)) \<noteq> 0 \<longrightarrow>
      warCounters (deepEnter (afterWarDraw hT sT g d))
        = (Wars (stats g) + 1, DeepWars (stats g) + 1, TotalWarDepth (stats g) + d)
      \<and> (\<exists>wp'. handleWar hT sT mT g wp d
            = handleWar hT sT mT (deepEnter (afterWarDraw hT sT g d)) wp' (d + 1)))
   \<and> (comparisonTies hT sT mT g d
        \<and> cards (playerA (afterWarDraw hT sT g d)) \<noteq> 0 \<and> cards (playerB (afterWarDraw hT sT g d)) \<noteq> 0
        \<and> \<not> comparisonTies hT sT mT (deepEnter (afterWarDraw hT sT g d)) (d + 1) \<longrightarrow>
      warCounters (snd (handleWar hT sT mT g wp d))
        = (Wars (stats g) + 2, DeepWars (stats g) + 1, TotalWarDepth (stats g) + d + (d + 1)))"
proof (intro conjI impI)
  assume "\<not> comparisonTies hT sT mT g d"
  then show "warCounters (snd (handleWar hT sT mT g wp d))
      = (Wars (stats g) + 1, DeepWars (stats g), TotalWarDepth (stats g) + d)"
    by (rule handleWar_no_tie)
next
  let ?g2 = "afterWarDraw hT sT g d"
  assume a: "comparisonTies hT sT mT g d \<and> (cards (playerA ?g2) = 0 \<or> cards (playerB ?g2) = 0)"
  then obtain wp' where "handleWar hT sT mT g wp d = handleDeepWar hT sT mT ?g2 wp' d"
    using handleWar_tie by blast
  then have "snd (handleWar hT sT mT g wp d) = deepEnter ?g2"
    using a handleDeepWar_guard by simp
  then show "warCounters (snd (handleWar hT sT mT g wp d))
      = (Wars (stats g) + 1, DeepWars (stats g) + 1, TotalWarDepth (stats g) + d)"
    using warCounters_afterWarDraw [of hT sT g d] by (simp add: warCounters_def deepEnter_def)
next
  let ?g2 = "afterWarDraw hT sT g d"
  assume "comparisonTies hT sT mT g d \<and> cards (playerA ?g2) \<noteq> 0 \<and> cards (playerB ?g2) \<noteq> 0"
  show "warCounters (deepEnter ?g2)
      = (Wars (stats g) + 1, DeepWars (stats g) + 1, TotalWarDepth (stats g) + d)"
    using warCounters_afterWarDraw [of hT sT g d] by (simp add: warCounters_def deepEnter_def)
next
  let ?g2 = "afterWarDraw hT sT g d"
  assume a: "comparisonTies hT sT mT g d \<and> cards (playerA ?g2) \<noteq> 0 \<and> cards (playerB ?g2) \<noteq> 0"
  then obtain wp' where "handleWar hT sT mT g wp d = handleDeepWar hT sT mT ?g2 wp' d"
    using handleWar_tie by blast
  then have "handleWar hT sT mT g wp d = handleWar hT sT mT (deepEnter ?g2) wp' (d + 1)"
    using a handleDeepWar_nested [of ?g2 hT sT mT wp' d] by simp
  then show "\<exists>wp'. handleWar hT sT mT g wp d = handleWar hT sT mT (deepEnter ?g2) wp' (d + 1)"
    by blast
next
  let ?g2 = "afterWarDraw hT sT g d"
  assume a: "comparisonTies hT sT mT g d \<and> cards (playerA ?g2) \<noteq> 0 \<and> cards (playerB ?g2) \<noteq> 0
      \<and> \<not> comparisonTies hT sT mT (deepEnter ?g2) (d + 1)"
  then obtain wp' where "handleWar hT sT mT g wp d = handleDeepWar hT sT mT ?g2 wp' d"
    using handleWar_tie by blast
  then have "handleWar hT sT mT g wp d = handleWar hT sT mT (deepEnter ?g2) wp' (d + 1)"
    using a handleDeepWar_nested [of ?g2 hT sT mT wp' d] by simp
  moreover have "warCounters (snd (handleWar hT sT mT (deepEnter ?g2) wp' (d + 1)))
      = (Wars (stats (deepEnter ?g2)) + 1, DeepWars (stats (deepEnter ?g2)),
         TotalWarDepth (stats (deepEnter ?g2)) + (d + 1))"
    using a by (intro handleWar_no_tie) simp
  ultimately show "warCounters (snd (handleWar hT sT mT g wp d))
      = (Wars (stats g) + 2, DeepWars (stats g) + 1, TotalWarDepth (stats g) + d + (d + 1))"
    using warCounters_afterWarDraw [of hT sT g d] by (simp add: warCounters_def deepEnter_def)
qed

theorem war_counter_accounting_witness:
  "\<not> comparisonTies 500 15000 3600000 (snd (snd tiedTrick)) 1
   \<and> warCounters (snd (handleWar 500 15000 3600000 (snd (snd tiedTrick)) [] 1)) = (1, 0, 1)
   \<and> comparisonTies 1 0 1000000 guardTrick 1
   \<and> cards (playerA (afterWarDraw 1 0 guardTrick 1)) = 0
   \<and> warCounters guardTrick = (4, 0, 4)
   \<and> warCounters (snd (handleWar 1 0 1000000 guardTrick [] 1)) = (5, 1, 5)
   \<and> comparisonTies 1 0 1000000 deepTrick 1
   \<and> cards (playerA (afterWarDraw 1 0 deepTrick 1)) \<noteq> 0
   \<and> cards (playerB (afterWarDraw 1 0 deepTrick 1)) \<noteq> 0
   \<and> \<not> comparisonTies 1 0 1000000 (deepEnter (afterWarDraw 1 0 deepTrick 1)) 2
   \<and> warCounters (snd (handleWar 1 0 1000000 deepTrick [] 1)) = (2, 1, 3)
   \<and> comparisonTies 1 0 1000000 tripleTrick 1
   \<and> cards (playerA (afterWarDraw 1 0 tripleTrick 1)) \<noteq> 0
   \<and> cards (playerB (afterWarDraw 1 0 tripleTrick 1)) \<noteq> 0
   \<and> warCounters (deepEnter (afterWarDraw 1 0 tripleTrick 1)) = (1, 1, 1)
   \<and> comparisonTies 1 0 1000000 (deepEnter (afterWarDraw 1 0 tripleTrick 1)) 2
   \<and> warCounters (snd (handleWar 1 0 1000000 tripleTrick [] 1)) = (3, 2, 6)"
proof -
  have a: "\<not> comparisonTies 500 15000 3600000 (snd (snd tiedTrick)) 1"
    "warCounters (snd (snd tiedTrick)) = (0, 0, 0)"
    by code_simp+
  have b: "comparisonTies 1 0 1000000 guardTrick 1"
    "cards (playerA (afterWarDraw 1 0 guardTrick 1)) = 0"
    "warCounters guardTrick = (4, 0, 4)"
    by code_simp+
  have c: "comparisonTies 1 0 1000000 deepTrick 1"
    "cards (playerA (afterWarDraw 1 0 deepTrick 1)) \<noteq> 0"
    "cards (playerB (afterWarDraw 1 0 deepTrick 1)) \<noteq> 0"
    "\<not> comparisonTies 1 0 1000000 (deepEnter (afterWarDraw 1 0 deepTrick 1)) 2"
    "warCounters deepTrick = (0, 0, 0)"
    by code_simp+
  have t: "comparisonTies 1 0 1000000 tripleTrick 1"
    "cards (playerA (afterWarDraw 1 0 tripleTrick 1)) \<noteq> 0"
    "cards (playerB (afterWarDraw 1 0 tripleTrick 1)) \<noteq> 0"
    "comparisonTies 1 0 1000000 (deepEnter (afterWarDraw 1 0 tripleTrick 1)) 2"
    "warCounters tripleTrick = (0, 0, 0)"
    "warCounters (snd (handleWar 1 0 1000000 tripleTrick [] 1)) = (3, 2, 6)"
    by code_simp+
  show ?thesis
    using a b c t
      war_counter_accounting [of 500 15000 3600000 "snd (snd tiedTrick)" 1 "[]"]
      war_counter_accounting [of 1 0 1000000 guardTrick 1 "[]"]
      war_counter_accounting [of 1 0 1000000 deepTrick 1 "[]"]
      war_counter_accounting [of 1 0 1000000 tripleTrick 1 "[]"]
    by (simp add: warCounters_def)
qed

text \<open>The claim as written fails for a tie whose war comparison ties again while a
  player has no card left. In the sixth trick of the \<open>guardDeal\<close> game the war
  comparison ties, the deep-war counter grows by 1, and the depth sum grows by 1
  only (from 4 to 5): the whole game counts 5 wars, 1 deep war and a depth sum
  of 5.\<close>

theorem war_counter_guard_counterexample:
  "comparisonTies 1 0 1000000 guardTrick 1
   \<and> warCounters guardTrick = (4, 0, 4)
   \<and> warCounters (snd (handleWar 1 0 1000000 guardTrick [] 1)) = (5, 1, 5)
   \<and> Tricks (fst (playGame 1 0 False 1000000 guardDeal)) = 6
   \<and> Wars (fst (playGame 1 0 False 1000000 guardDeal)) = 5
   \<and> DeepWars (fst (playGame 1 0 False 1000000 guardDeal)) = 1
   \<and> TotalWarDepth (fst (playGame 1 0 False 1000000 guardDeal)) = 5"
  by code_simp

subsection \<open>The batch\<close>

text \<open>
  \<^verbatim>\<open>runSimulations\<close> allocates \<^verbatim>\<open>make([]GameStats, gamesToPlay)\<close> before the loop,
  outside the deferred \<^verbatim>\<open>recover\<close>. The Go runtime is not part of the repository.
  On a 64-bit platform it panics (\<^verbatim>\<open>makeslice: len out of range\<close>) when the length is
  negative or the size in bytes, 96 per \<^verbatim>\<open>GameStats\<close> (eleven 8-byte fields and a
  padded \<^verbatim>\<open>bool\<close>), exceeds \<open>2^48\<close>; below that limit the allocation still ends the
  program (\<^verbatim>\<open>out of memory\<close>) when the process cannot get the memory. How many
  records the process can get is a parameter, \<open>memoryRecords\<close>.

  Inside the loop each game runs under \<^verbatim>\<open>recover\<close>; \<open>playGame\<close> has no failing step
  (each index it reads is guarded by a length test), so the sentinel record of the
  recover branch is never produced and the model has no such branch. \<^verbatim>\<open>parseArgs\<close>
  returns the flags as parsed and \<^verbatim>\<open>main\<close> passes them on unchanged; neither has an
  error result.
\<close>

datatype Fault = MakeSliceLenOutOfRange | OutOfMemory

text \<open>\<^verbatim>\<open>stats[i] = playGame(...); stats[i].GameNumber = i + 1\<close>, on the records stored
  so far and the generator.\<close>

fun storeGame :: "int \<Rightarrow> GameStats list \<Rightarrow> GameStats \<times> Rand \<Rightarrow> GameStats list \<times> Rand" where
  "storeGame i acc (s, r) = (acc @ [s\<lparr>GameNumber := i + 1\<rparr>], r)"

text \<open>The loop \<^verbatim>\<open>for i := 0; i < gamesToPlay; i++\<close>, with the number of iterations left
  as first argument.\<close>

fun simulateFrom ::
  "nat \<Rightarrow> int \<Rightarrow> int \<Rightarrow> int \<Rightarrow> bool \<Rightarrow> int \<Rightarrow> GameStats list \<times> Rand \<Rightarrow> GameStats list \<times> Rand" where
  "simulateFrom 0 i handTime shuffleTime includeJokers maxGameTime (acc, r) = (acc, r)"
| "simulateFrom (Suc n) i handTime shuffleTime includeJokers maxGameTime (acc, r) =
     simulateFrom n (i + 1) handTime shuffleTime includeJokers maxGameTime
       (storeGame i acc (playGame handTime shuffleTime includeJokers maxGameTime r))"

definition runSimulations ::
  "nat \<Rightarrow> int \<Rightarrow> int \<Rightarrow> int \<Rightarrow> bool \<Rightarrow> int \<Rightarrow> Rand \<Rightarrow> (Fault + GameStats list) \<times> Rand" where
  "runSimulations memoryRecords gamesToPlay handTime shuffleTime includeJokers maxGameTime r =
     (if gamesToPlay < 0 \<or> 2 ^ 48 < gamesToPlay * 96 then (Inl MakeSliceLenOutOfRange, r)
      else if int memoryRecords < gamesToPlay then (Inl OutOfMemory, r)
      else map_prod Inr id
             (simulateFrom (nat gamesToPlay) 0 handTime shuffleTime includeJokers maxGameTime ([], r)))"

lemma simulateFrom_acc:
  assumes "\<And>r. P (fst (playGame hT sT j mT r))"
    and "\<And>s k. P s \<Longrightarrow> P (s\<lparr>GameNumber := k\<rparr>)"
  shows "\<exists>new. fst (simulateFrom n i hT sT j mT (acc, r)) = acc @ new
           \<and> map GameNumber new = map (\<lambda>k. i + 1 + int k) [0 ..< n]
           \<and> (\<forall>s \<in> set new. P s)"
proof (induction n arbitrary: i acc r)
  case 0
  show ?case by simp
next
  case (Suc n)
  obtain s r' where pg: "playGame hT sT j mT r = (s, r')"
    by (metis prod.exhaust)
  have Ps: "P (s\<lparr>GameNumber := i + 1\<rparr>)"
    using assms(1) [of r] assms(2) pg by simp
  obtain new where new:
    "fst (simulateFrom n (i + 1) hT sT j mT (acc @ [s\<lparr>GameNumber := i + 1\<rparr>], r'))
       = (acc @ [s\<lparr>GameNumber := i + 1\<rparr>]) @ new"
    "map GameNumber new = map (\<lambda>k. i + 1 + 1 + int k) [0 ..< n]"
    "\<forall>s \<in> set new. P s"
    using Suc.IH [of "i + 1" "acc @ [s\<lparr>GameNumber := i + 1\<rparr>]" r'] by blast
  have "map (\<lambda>k. i + 1 + int k) [0 ..< Suc n]
      = (i + 1) # map (\<lambda>k. i + 1 + 1 + int k) [0 ..< n]"
    by (simp add: upt_conv_Cons map_Suc_upt [symmetric] del: upt_Suc)
  then show ?case
    using new Ps
    by (intro exI [of _ "s\<lparr>GameNumber := i + 1\<rparr> # new"]) (simp add: pg del: upt_Suc)
qed

lemma playGame_nonpositive_ceiling:
  assumes "mT \<le> 0"
  shows "Tricks (fst (playGame hT sT j mT r)) = 0 \<and> \<not> Finished (fst (playGame hT sT j mT r))"
proof -
  have "\<not> loopCond mT (initGame j r)"
    using assms by (simp add: loopCond_def initGame_piles)
  then have "playLoop hT sT mT (initGame j r) = initGame j r"
    by (simp add: playLoop.simps [of _ _ _ "initGame j r"])
  then show ?thesis
    by (simp add: playGame_def Let_def finishStats_def initGame_cards emptyStats_def)
qed

text \<open>A record of the batch is what some call of \<^verbatim>\<open>playGame\<close> with the batch's
  configuration returned, with its game number set.\<close>

definition gameRecord :: "int \<Rightarrow> int \<Rightarrow> bool \<Rightarrow> int \<Rightarrow> GameStats \<Rightarrow> bool" where
  "gameRecord handTime shuffleTime includeJokers maxGameTime s \<longleftrightarrow>
     (\<exists>r k. s = (fst (playGame handTime shuffleTime includeJokers maxGameTime r))\<lparr>GameNumber := k\<rparr>)"

lemma gameRecord_playGame: "gameRecord hT sT j mT (fst (playGame hT sT j mT r))"
proof -
  have "fst (playGame hT sT j mT r)
      = (fst (playGame hT sT j mT r))\<lparr>GameNumber := GameNumber (fst (playGame hT sT j mT r))\<rparr>"
    by simp
  then show ?thesis unfolding gameRecord_def by blast
qed

lemma gameRecord_number: "gameRecord hT sT j mT s \<Longrightarrow> gameRecord hT sT j mT (s\<lparr>GameNumber := k\<rparr>)"
  unfolding gameRecord_def by (metis GameStats.update_convs(1) GameStats.surjective)

text \<open>
  C7 (as the code has it). The code validates nothing. For every number of games
  \<open>n \<ge> 0\<close> that \<^verbatim>\<open>make\<close> can allocate (\<open>96 n \<le> 2^48\<close> bytes, and within the memory of
  the process) and every hand time, shuffle time and ceiling, negative ones
  included, \<^verbatim>\<open>runSimulations\<close> returns no error but a batch of exactly \<open>n\<close> records
  numbered 1 to \<open>n\<close>, each of them the record of a game that \<^verbatim>\<open>playGame\<close> simulated
  with that configuration: zero games give the empty batch, and with a ceiling
  that is not positive every game is still set up and returns at once, as an
  unfinished record with zero tricks.
\<close>

theorem runSimulations_accepts_every_configuration:
  assumes "int n * 96 \<le> 2 ^ 48" and "n \<le> memoryRecords"
  shows "\<exists>batch.
      fst (runSimulations memoryRecords (int n) handTime shuffleTime includeJokers maxGameTime r)
        = Inr batch
      \<and> length batch = n
      \<and> map GameNumber batch = map int [1 ..< n + 1]
      \<and> (\<forall>s \<in> set batch. gameRecord handTime shuffleTime includeJokers maxGameTime s)
      \<and> (maxGameTime \<le> 0 \<longrightarrow> (\<forall>s \<in> set batch. Tricks s = 0 \<and> \<not> Finished s))"
proof -
  let ?P = "\<lambda>s. gameRecord handTime shuffleTime includeJokers maxGameTime s
      \<and> (maxGameTime \<le> 0 \<longrightarrow> Tricks s = 0 \<and> \<not> Finished s)"
  have "\<exists>new. fst (simulateFrom n 0 handTime shuffleTime includeJokers maxGameTime ([], r)) = [] @ new
      \<and> map GameNumber new = map (\<lambda>k. 0 + 1 + int k) [0 ..< n] \<and> (\<forall>s \<in> set new. ?P s)"
    by (rule simulateFrom_acc)
      (simp_all add: playGame_nonpositive_ceiling gameRecord_playGame gameRecord_number)
  then obtain new where new:
    "fst (simulateFrom n 0 handTime shuffleTime includeJokers maxGameTime ([], r)) = new"
    "map GameNumber new = map (\<lambda>k. 1 + int k) [0 ..< n]" "\<forall>s \<in> set new. ?P s"
    by auto
  have "length (map GameNumber new) = n"
    unfolding new(2) by simp
  then have len: "length new = n" by simp
  have "map (\<lambda>k. 1 + int k) [0 ..< n] = map int [1 ..< n + 1]"
    by (induction n) simp_all
  moreover have "fst (runSimulations memoryRecords (int n) handTime shuffleTime includeJokers maxGameTime r)
      = Inr new"
    using assms new(1) by (simp add: runSimulations_def)
  ultimately show ?thesis
    using new(2,3) len by (intro exI [of _ new]) auto
qed

theorem runSimulations_accepts_every_configuration_witness:
  "int 2 * 96 \<le> 2 ^ 48 \<and> (2::nat) \<le> 1000 \<and> (0::int) \<le> 0
   \<and> fst (runSimulations 1000 2 (- 500) (- 15000) False 0 plainDeal)
       = Inr [emptyStats\<lparr>GameNumber := 1\<rparr>, emptyStats\<lparr>GameNumber := 2\<rparr>]
   \<and> gameRecord (- 500) (- 15000) False 0 (emptyStats\<lparr>GameNumber := 1\<rparr>)"
proof -
  have e: "fst (runSimulations 1000 2 (- 500) (- 15000) False 0 plainDeal)
      = Inr [emptyStats\<lparr>GameNumber := 1\<rparr>, emptyStats\<lparr>GameNumber := 2\<rparr>]"
    by code_simp
  have h: "int 2 * 96 \<le> 2 ^ 48" "(2::nat) \<le> 1000"
    by simp_all
  obtain batch where
    "fst (runSimulations 1000 (int 2) (- 500) (- 15000) False 0 plainDeal) = Inr batch"
    "\<forall>s \<in> set batch. gameRecord (- 500) (- 15000) False 0 s"
    using runSimulations_accepts_every_configuration [OF h, of "- 500" "- 15000" False 0 plainDeal]
    by auto
  then have "batch = [emptyStats\<lparr>GameNumber := 1\<rparr>, emptyStats\<lparr>GameNumber := 2\<rparr>]"
    "\<forall>s \<in> set batch. gameRecord (- 500) (- 15000) False 0 s"
    using e by simp_all
  then have "gameRecord (- 500) (- 15000) False 0 (emptyStats\<lparr>GameNumber := 1\<rparr>)"
    by (metis list.set_intros(1))
  then show ?thesis using e h by simp
qed

text \<open>The claim as written fails: zero games, negative times and a ceiling of zero are
  all accepted. Zero games return the empty batch; one game with a hand time of
  -500 ms, a shuffle time of -15000 ms and a ceiling of 0 ms returns one record;
  one game with a hand time of -1 ms is played to its end.\<close>

theorem runSimulations_no_validation_counterexample:
  "fst (runSimulations 1000 0 500 15000 False 3600000 plainDeal) = Inr []
   \<and> fst (runSimulations 1000 1 (- 500) (- 15000) False 0 plainDeal)
       = Inr [emptyStats\<lparr>GameNumber := 1\<rparr>]
   \<and> fst (runSimulations 1000 1 (- 1) 0 False 3 plainDeal)
       = Inr [\<lparr>GameNumber = 1, Tricks = 26, Wars = 0, DeepWars = 0, TotalWarDepth = 0,
               ShufflesA = 0, ShufflesB = 0, GameDuration = - 26000000, Finished = True,
               PlayerATricks = 0, PlayerBTricks = 26, Winner = 2\<rparr>]"
  by code_simp


subsection \<open>The levels of a war\<close>

text \<open>A draw for a war takes a card off every player who holds one, as long as no
  pile contains the sentinel \<^verbatim>\<open>Card{}\<close> itself (the deck has ranks 2 to 15).\<close>

lemma drawCard_reshuffle_real:
  assumes "DrawPile p = []" "WinningsPile p \<noteq> []" "Card 0 \<notin> set (WinningsPile p)"
    and "drawCard p r = ((c, s), p1, r1)"
  shows "c \<noteq> Card 0"
proof -
  obtain pile r' where sh: "shuffleDeck (WinningsPile p) r = (pile, r')"
    by (metis prod.exhaust)
  have "pile \<noteq> []" "set pile = set (WinningsPile p)"
    using length_shuffleDeck [OF sh] mset_shuffleDeck [OF sh] assms(2)
    by (auto dest: mset_eq_setD)
  moreover have "c = hd pile"
    using assms(1,2,4) by (simp add: drawCard_def sh)
  ultimately show ?thesis
    using assms(3) by (metis hd_in_set)
qed

lemma drawWarLoop_step:
  assumes "drawCard p r = ((c, s), p1, r1)" and "c \<noteq> Card 0"
    and "drawWarLoop (Suc n) hT sT cs (p, sh, t, r) = res"
  shows "\<exists>sh1 t1. drawWarLoop n hT sT (cs @ [c]) (p1, sh1, t1, r1) = res"
  using assms by (auto simp: Let_def)

lemma drawWarCards_removes_card:
  assumes "0 < cards p" and "Card 0 \<notin> set (DrawPile p) \<union> set (WinningsPile p)"
  shows "cards (fst (snd (drawWarCards p sh t hT sT r))) < cards p"
proof -
  obtain cs p' sh' t' r' where d: "drawWarCards p sh t hT sT r = (cs, p', sh', t', r')"
    by (metis prod.exhaust)
  have four: "(4::nat) = Suc (Suc 2)" by simp
  have loop: "drawWarLoop (Suc (Suc 2)) hT sT [] (p, sh, t, r) = (cs, p', sh', t', r')"
    using d unfolding drawWarCards_def four .
  have "cards p' < cards p"
  proof (cases "DrawPile p = []")
    case False
    then show ?thesis using loop by (rule drawWarLoop_pop)
  next
    case True
    then have w: "WinningsPile p \<noteq> []"
      using assms(1) by (simp add: cards_def)
    obtain c s p1 r1 where dc: "drawCard p r = ((c, s), p1, r1)"
      by (metis prod.exhaust)
    have c: "c \<noteq> Card 0"
      using drawCard_reshuffle_real [OF True w _ dc] assms(2) by simp
    have p1: "DrawPile p1 \<noteq> []" "cards p1 = cards p"
      using drawCard_reshuffle_pile [OF True w dc] by simp_all
    obtain sh1 t1 where "drawWarLoop (Suc 2) hT sT ([] @ [c]) (p1, sh1, t1, r1) = (cs, p', sh', t', r')"
      using drawWarLoop_step [OF dc c loop] by blast
    then have "cards p' < cards p1"
      by (rule drawWarLoop_pop [OF p1(1)])
    then show ?thesis using p1(2) by simp
  qed
  then show ?thesis by (simp add: d)
qed


lemma warDraw_each_decreases:
  assumes "warDraw hT sT g = (cardsA, cardsB, g2)"
  shows "cardsA \<noteq> [] \<Longrightarrow> cards (playerA g2) < cards (playerA g)"
    and "cardsB \<noteq> [] \<Longrightarrow> cards (playerB g2) < cards (playerB g)"
proof -
  obtain pA shA tA rA where a:
    "drawWarCards (playerA g) (ShufflesA (stats g)) (totalTime g) hT sT (rand g)
       = (cardsA, pA, shA, tA, rA)"
    using assms(1) by (auto simp: warDraw_def split: prod.splits)
  obtain pB shB tB rB where b:
    "drawWarCards (playerB g) (ShufflesB (stats g)) tA hT sT rA = (cardsB, pB, shB, tB, rB)"
    using assms(1) a by (auto simp: warDraw_def split: prod.splits)
  have g2: "playerA g2 = pA" "playerB g2 = pB"
    using assms(1) a b by (auto simp: warDraw_def)
  show "cardsA \<noteq> [] \<Longrightarrow> cards (playerA g2) < cards (playerA g)"
    using drawWarCards_obtained_decreases [OF a] g2 by simp
  show "cardsB \<noteq> [] \<Longrightarrow> cards (playerB g2) < cards (playerB g)"
    using drawWarCards_obtained_decreases [OF b] g2 by simp
qed

text \<open>\<^verbatim>\<open>handleWar\<close> adds one to \<^verbatim>\<open>stats.Wars\<close> at each level, so the growth of that
  counter over one call is the number of nested levels the call goes through.\<close>

lemma handleWar_levels:
  "Wars (stats (snd (handleWar hT sT mT g wp d)))
     \<le> Wars (stats g) + int (max 1 (min (cards (playerA g)) (cards (playerB g))))"
  and "Wars (stats (snd (handleDeepWar hT sT mT g wp d)))
     \<le> Wars (stats g) + int (min (cards (playerA g)) (cards (playerB g)))"
proof (induction hT sT mT g wp d and hT sT mT g wp d rule: handleWar_handleDeepWar.induct)
  case (1 hT sT mT g wp d)
  obtain cardsA cardsB g2 where w: "warDraw hT sT (warEnter hT d g) = (cardsA, cardsB, g2)"
    by (metis prod.exhaust)
  have wars2: "Wars (stats g2) = Wars (stats g) + 1"
    using warDraw_frame(5) [OF w] by (simp add: warEnter_def)
  show ?case
  proof (cases "\<not> mT \<le> totalTime (warEnter hT d g) \<and> \<not> (length cardsA = 0 \<or> length cardsB = 0)
                \<and> Rank (last cardsA) = Rank (last cardsB)")
    case True
    then have eq: "handleWar hT sT mT g wp d
        = handleDeepWar hT sT mT g2 (wp @ butlast cardsA @ butlast cardsB @ [last cardsA, last cardsB]) d"
      using w by (simp add: handleWar.simps)
    have ih: "Wars (stats (snd (handleDeepWar hT sT mT g2
          (wp @ butlast cardsA @ butlast cardsB @ [last cardsA, last cardsB]) d)))
        \<le> Wars (stats g2) + int (min (cards (playerA g2)) (cards (playerB g2)))"
      using "1.IH" [of cardsA "(cardsB, g2)" cardsB g2] True w by simp
    have "cards (playerA g2) < cards (playerA g)" "cards (playerB g2) < cards (playerB g)"
      using warDraw_each_decreases [OF w] True by simp_all
    then show ?thesis
      using ih wars2 unfolding eq by simp
  next
    case False
    then have "snd (handleWar hT sT mT g wp d) = warEnter hT d g \<or> snd (handleWar hT sT mT g wp d) = g2"
      using w by (auto simp: handleWar.simps)
    then show ?thesis
      using wars2 by (auto simp: warEnter_def)
  qed
next
  case (2 hT sT mT g wp d)
  show ?case
  proof (cases "cards (playerA g) \<noteq> 0 \<and> cards (playerB g) \<noteq> 0")
    case True
    then show ?thesis using "2.IH" by (simp add: handleDeepWar.simps)
  next
    case False
    then show ?thesis by (auto simp: handleDeepWar.simps)
  qed
qed

text \<open>Two players with 220 eights each in the draw pile, at the start of a war.\<close>

definition bigWar :: Game where
  "bigWar = \<lparr>playerA = \<lparr>DrawPile = replicate 220 (Card 8), WinningsPile = []\<rparr>,
             playerB = \<lparr>DrawPile = replicate 220 (Card 8), WinningsPile = []\<rparr>,
             stats = emptyStats, totalTime = 0, rand = plainDeal\<rparr>"

text \<open>
  C10 (as the code has it). \<open>playLoop\<close> and \<open>handleWar\<close> are total functions, accepted
  with the termination measures \<open>100000 - Tricks\<close> and the number of cards the two
  players hold, so \<^verbatim>\<open>playGame\<close> returns for every configuration and every random
  source. In numbers:
  \<^item> the body of the main loop runs at most 100000 times, and the trick counter of the
    returned record is the number of times it ran;
  \<^item> a call of \<^verbatim>\<open>drawWarCards\<close> on a player who holds a card (and no sentinel card)
    leaves the player with fewer cards;
  \<^item> the number of nested levels of one war is at most the smaller of the two
    players' card counts at the start of the war, and at least one level runs.
  The bound is in cards held, not in the deck size: the piles are not bounded by
  the deck size.
\<close>

theorem playGame_terminates_war_levels:
  "loopIterations handTime shuffleTime maxGameTime (initGame includeJokers r) \<le> 100000
   \<and> playLoop handTime shuffleTime maxGameTime (initGame includeJokers r)
       = (playTrick handTime shuffleTime maxGameTime
            ^^ loopIterations handTime shuffleTime maxGameTime (initGame includeJokers r))
           (initGame includeJokers r)
   \<and> Tricks (fst (playGame handTime shuffleTime includeJokers maxGameTime r))
       = int (loopIterations handTime shuffleTime maxGameTime (initGame includeJokers r))
   \<and> (0 < cards p \<and> Card 0 \<notin> set (DrawPile p) \<union> set (WinningsPile p) \<longrightarrow>
        cards (fst (snd (drawWarCards p sh t handTime shuffleTime r'))) < cards p)
   \<and> Wars (stats (snd (handleWar handTime shuffleTime maxGameTime g warPile depth)))
       \<le> Wars (stats g) + int (max 1 (min (cards (playerA g)) (cards (playerB g))))"
proof -
  have "loopIterations handTime shuffleTime maxGameTime (initGame includeJokers r)
      \<le> nat (100000 - Tricks (stats (initGame includeJokers r)))"
    by (rule loopIterations_bound)
  then have "loopIterations handTime shuffleTime maxGameTime (initGame includeJokers r) \<le> 100000"
    by (simp add: emptyStats_def)
  moreover have "Tricks (fst (playGame handTime shuffleTime includeJokers maxGameTime r))
      = int (loopIterations handTime shuffleTime maxGameTime (initGame includeJokers r))"
    by (simp add: playGame_def Let_def playLoop_Tricks emptyStats_def)
  ultimately show ?thesis
    using playLoop_funpow [of handTime shuffleTime maxGameTime "initGame includeJokers r"]
      handleWar_levels(1) [of handTime shuffleTime maxGameTime g warPile depth]
      drawWarCards_removes_card [of p sh t handTime shuffleTime r']
    by blast
qed

theorem playGame_terminates_war_levels_witness:
  "0 < cards spentPlayer
   \<and> Card 0 \<notin> set (DrawPile spentPlayer) \<union> set (WinningsPile spentPlayer)
   \<and> cards (fst (snd (drawWarCards spentPlayer 0 0 500 15000 plainDeal))) < cards spentPlayer
   \<and> loopIterations 500 15000 3600000 (initGame False warDeal) \<le> 100000"
proof -
  have h: "0 < cards spentPlayer"
    "Card 0 \<notin> set (DrawPile spentPlayer) \<union> set (WinningsPile spentPlayer)"
    by (simp_all add: spentPlayer_def cards_def)
  show ?thesis
    using h playGame_terminates_war_levels
      [of 500 15000 3600000 False warDeal spentPlayer 0 0 plainDeal]
    by blast
qed

text \<open>The claim as written fails where it bounds the depth of a war by the deck size:
  \<^verbatim>\<open>handleWar\<close> on two players who hold 220 cards each goes through 55 levels, more
  than the 54 cards of the larger deck.\<close>

theorem war_depth_exceeds_deck_counterexample:
  "cards (playerA bigWar) = 220 \<and> cards (playerB bigWar) = 220
   \<and> length (createDeck True) = 54
   \<and> Wars (stats (snd (handleWar 0 0 1 bigWar [Card 8, Card 8] 1))) = 55"
  by code_simp

end
